theory Spec2Isabelle
  imports Main "HOL-Library.Multiset"
begin

section \<open>Data model of tsclient.ts\<close>

text \<open>
  The interfaces \<open>TSFile\<close> and \<open>TSProgram\<close> of the source. Several records of this
  development have a field \<open>files\<close>, as the source's interfaces do; they are always
  written with their record's name in front.
\<close>

record TSFile =
  name :: string
  content :: string

record TSProgram =
  files :: "TSFile list"

text \<open>
  A script element of the host document, as far as \<open>readScripts\<close> and \<open>readScript\<close>
  look at it: \<open>getAttribute("src")\<close> (\<open>None\<close> is JavaScript's \<open>null\<close>), the
  \<open>src\<close> property and \<open>innerHTML\<close>. The document is not part of the program, so the
  three values are inputs. In a browser the \<open>src\<close> property of an element without the
  attribute is the empty string; with the attribute it is the location resolved against the
  document's address, or the attribute's text when that does not parse as a URL.
\<close>

record HTMLScriptElement =
  src_attribute :: "string option"
  src :: string
  innerHTML :: string

text \<open>
  A request built by \<open>readScript\<close>: \<open>xhr.open("GET", src)\<close> fixes the address, and the
  \<open>onload\<close> closure captures the parameter \<open>name\<close>.
\<close>

record XMLHttpRequest =
  url :: string
  onload_name :: string

text \<open>
  What an aggregation attempt does that can be seen from outside, in the order in which it
  happens: the advisory \<open>addNote\<close>, \<open>waitingXHRsRef.n++\<close>, \<open>xhr.send()\<close> and the
  invocation of the callback with its argument.
\<close>

datatype event =
    Note string bool
  | Incremented
  | Sent XMLHttpRequest
  | Callback TSProgram

text \<open>
  The locals of \<open>readScripts\<close> that \<open>readScript\<close> and the \<open>onload\<close> closures share:
  the object \<open>waitingXHRsRef\<close> (its fields \<open>n\<close> and \<open>called\<close>), the arrays
  \<open>xhrs\<close> and \<open>files\<close>, and the trace of events so far.
\<close>

record store =
  n :: int
  called :: bool
  xhrs :: "XMLHttpRequest list"
  files :: "TSFile list"
  events :: "event list"

section \<open>Strings of the host language\<close>

text \<open>
  \<open>String.prototype.lastIndexOf\<close> with one argument: the search runs from the end of the
  string downwards and returns the first position where the pattern matches, or \<open>-1\<close>.
\<close>

fun lastIndexOf_from :: "string \<Rightarrow> string \<Rightarrow> nat \<Rightarrow> int" where
  "lastIndexOf_from s pat 0 = (if take (length pat) s = pat then 0 else - 1)"
| "lastIndexOf_from s pat (Suc k) =
     (if take (length pat) (drop (Suc k) s) = pat then int (Suc k)
      else lastIndexOf_from s pat k)"

definition lastIndexOf :: "string \<Rightarrow> string \<Rightarrow> int" where
  "lastIndexOf s pat = lastIndexOf_from s pat (length s)"

text \<open>
  \<open>String.prototype.substring\<close> with one argument: a negative start counts as \<open>0\<close>, a
  start beyond the end gives the empty string.
\<close>

definition substring :: "string \<Rightarrow> int \<Rightarrow> string" where
  "substring s start = drop (nat start) s"

text \<open>A non-negative integer in a template literal: its decimal digits.\<close>

definition digit :: "nat \<Rightarrow> char" where
  "digit d = ''0123456789'' ! d"

function decimal :: "nat \<Rightarrow> string" where
  "decimal k = (if k < 10 then [digit k] else decimal (k div 10) @ [digit (k mod 10)])"
  by pat_completeness auto
termination
  by (relation "measure id") auto

declare decimal.simps [simp del]

section \<open>The aggregation: readScript and readScripts\<close>

text \<open>
  Exceptions of the host. \<open>xhr.open\<close> throws a \<open>SyntaxError\<close> when its location does
  not parse as a URL; \<open>appendChild(null)\<close> and \<open>for ... of\<close> over \<open>undefined\<close>
  throw a \<open>TypeError\<close>.
\<close>

datatype exn = TypeError | SyntaxError

text \<open>
  How a call ends: it returns, or it throws, and in both cases it leaves the shared state
  as it was at that moment. Nothing on the path from \<open>compile\<close> through \<open>readScripts\<close>
  to \<open>readScript\<close> catches an exception.
\<close>

datatype completion = Returned store | Thrown exn store

fun state_of :: "completion \<Rightarrow> store" where
  "state_of (Returned st) = st"
| "state_of (Thrown e st) = st"

fun returned :: "completion \<Rightarrow> bool" where
  "returned (Returned st) = True"
| "returned (Thrown e st) = False"

text \<open>
  \<open>readScript\<close> (lines 181 to 215). The callback is the event \<open>Callback\<close>; the
  \<open>onload\<close> closure is the function \<open>onload\<close> below, applied when the request loads.
  The host's URL parser is a parameter: \<open>open_accepts location\<close> says whether
  \<open>xhr.open("GET", location)\<close> returns. When it throws (line 199), the counter has been
  incremented (line 195) and the request has not been queued (line 213).
\<close>

definition readScript ::
  "(string \<Rightarrow> bool) \<Rightarrow> store \<Rightarrow> string \<Rightarrow> HTMLScriptElement \<Rightarrow> completion" where
  "readScript open_accepts st nm script =
     (case src_attribute script of
        None \<Rightarrow>
          Returned
            (st\<lparr>store.files := store.files st @ [\<lparr>name = nm, content = innerHTML script\<rparr>]\<rparr>)
      | Some location \<Rightarrow>
          (let st1 = st\<lparr>n := n st + 1, events := events st @ [Incremented]\<rparr>
           in if open_accepts location
              then Returned (st1\<lparr>xhrs := xhrs st1 @ [\<lparr>url = location, onload_name = nm\<rparr>]\<rparr>)
              else Thrown SyntaxError st1))"

text \<open>The handler \<open>xhr.onload\<close> that \<open>readScript\<close> installs (lines 200 to 211).\<close>

definition onload :: "store \<Rightarrow> XMLHttpRequest \<Rightarrow> string \<Rightarrow> store" where
  "onload st xhr responseText =
     (let st1 = st\<lparr>store.files :=
                     store.files st @ [\<lparr>name = onload_name xhr, content = responseText\<rparr>]\<rparr>;
          st2 = st1\<lparr>n := n st1 - 1\<rparr>
      in if n st2 = 0 \<and> \<not> called st2
         then st2\<lparr>events := events st2 @ [Callback \<lparr>TSProgram.files = store.files st2\<rparr>]\<rparr>
         else st2)"

text \<open>
  The name that the loop of \<open>readScripts\<close> computes for the element at position
  \<open>scriptNumber\<close> (lines 234 to 236).
\<close>

definition script_name :: "nat \<Rightarrow> HTMLScriptElement \<Rightarrow> string" where
  "script_name scriptNumber script =
     (let nm = src script;
          nm = substring nm (lastIndexOf nm ''/'')
      in if nm = '''' then ''script-'' @ decimal scriptNumber @ ''.ts'' else nm)"

text \<open>
  The loop of lines 233 to 245. The source counts with \<open>i\<close> and \<open>scriptNumber\<close>, which
  both start at \<open>0\<close> and grow by one in every round, so one counter stands for both. An
  exception of \<open>readScript\<close> ends the loop.
\<close>

fun read_loop ::
  "(string \<Rightarrow> bool) \<Rightarrow> store \<Rightarrow> nat \<Rightarrow> HTMLScriptElement list \<Rightarrow> completion" where
  "read_loop open_accepts st scriptNumber [] = Returned st"
| "read_loop open_accepts st scriptNumber (script # scripts) =
     (case readScript open_accepts st (script_name scriptNumber script) script of
        Returned st1 \<Rightarrow> read_loop open_accepts st1 (Suc scriptNumber) scripts
      | Thrown e st1 \<Rightarrow> Thrown e st1)"

definition initial :: store where
  "initial = \<lparr>n = 0, called = False, xhrs = [], store.files = [], events = []\<rparr>"

text \<open>Lines 222 to 249: everything before the first \<open>send\<close>.\<close>

definition enumerate_scripts ::
  "(string \<Rightarrow> bool) \<Rightarrow> HTMLScriptElement list \<Rightarrow> HTMLScriptElement option \<Rightarrow> completion" where
  "enumerate_scripts open_accepts scripts config =
     (let st0 = (if config = None
                 then initial\<lparr>events :=
                   [Note ''TypeScript config not found... compilation is very unlikely to succeed.'' True]\<rparr>
                 else initial)
      in case read_loop open_accepts st0 0 scripts of
           Thrown e st1 \<Rightarrow> Thrown e st1
         | Returned st1 \<Rightarrow>
             (case config of
                None \<Rightarrow> Returned st1
              | Some c \<Rightarrow> readScript open_accepts st1 ''tsconfig.json'' c))"

text \<open>Lines 251 to 253: every queued request is sent.\<close>

definition send_all :: "store \<Rightarrow> store" where
  "send_all st = st\<lparr>events := events st @ map Sent (xhrs st)\<rparr>"

text \<open>Lines 255 to 257: the check after the dispatch.\<close>

definition post_dispatch_check :: "store \<Rightarrow> store" where
  "post_dispatch_check st =
     (if n st = 0 \<and> \<not> called st
      then st\<lparr>events := events st @ [Callback \<lparr>TSProgram.files = store.files st\<rparr>]\<rparr>
      else st)"

text \<open>
  \<open>readScripts\<close> (lines 221 to 258). When the enumeration throws, the dispatch and the
  check are not reached.
\<close>

definition readScripts ::
  "(string \<Rightarrow> bool) \<Rightarrow> HTMLScriptElement list \<Rightarrow> HTMLScriptElement option \<Rightarrow> completion" where
  "readScripts open_accepts scripts config =
     (case enumerate_scripts open_accepts scripts config of
        Thrown e st \<Rightarrow> Thrown e st
      | Returned st \<Rightarrow> Returned (post_dispatch_check (send_all st)))"

section \<open>The host's delivery of fetch results\<close>

text \<open>
  How a request sent by \<open>readScripts\<close> ends. The host raises the \<open>load\<close> event when a
  response arrived, whatever its status code, and the \<open>error\<close> event when the request
  failed in the network. \<open>readScript\<close> installs \<open>onload\<close> and no other handler, so a
  network failure runs no code of the program. Handlers run one after the other, after
  \<open>readScripts\<close> has returned, and only for requests that were sent.
\<close>

datatype fetch_result = Load nat string | NetworkError

fun deliver :: "store \<Rightarrow> XMLHttpRequest \<times> fetch_result \<Rightarrow> store" where
  "deliver st (xhr, Load status responseText) = onload st xhr responseText"
| "deliver st (xhr, NetworkError) = st"

definition run :: "store \<Rightarrow> (XMLHttpRequest \<times> fetch_result) list \<Rightarrow> store" where
  "run st schedule = foldl deliver st schedule"

fun loaded :: "XMLHttpRequest \<times> fetch_result \<Rightarrow> bool" where
  "loaded (xhr, Load status responseText) = True"
| "loaded (xhr, NetworkError) = False"

section \<open>Observations\<close>

fun callbacks_of :: "event list \<Rightarrow> TSProgram list" where
  "callbacks_of [] = []"
| "callbacks_of (Callback p # es) = p # callbacks_of es"
| "callbacks_of (e # es) = callbacks_of es"

definition callbacks :: "store \<Rightarrow> TSProgram list" where
  "callbacks st = callbacks_of (events st)"

definition elements :: "HTMLScriptElement list \<Rightarrow> HTMLScriptElement option \<Rightarrow> HTMLScriptElement list" where
  "elements scripts config = scripts @ (case config of None \<Rightarrow> [] | Some c \<Rightarrow> [c])"

definition remote :: "HTMLScriptElement \<Rightarrow> bool" where
  "remote script = (src_attribute script \<noteq> None)"

definition remote_count :: "HTMLScriptElement list \<Rightarrow> HTMLScriptElement option \<Rightarrow> nat" where
  "remote_count scripts config = length (filter remote (elements scripts config))"

definition inline_count :: "HTMLScriptElement list \<Rightarrow> HTMLScriptElement option \<Rightarrow> nat" where
  "inline_count scripts config =
     length (filter (\<lambda>s. \<not> remote s) (elements scripts config))"

text \<open>
  \<open>xhr.open\<close> does not throw for this element: it is inline, so that \<open>readScript\<close>
  opens no request, or its location is accepted.
\<close>

definition opens :: "(string \<Rightarrow> bool) \<Rightarrow> HTMLScriptElement \<Rightarrow> bool" where
  "opens open_accepts script =
     (case src_attribute script of None \<Rightarrow> True | Some location \<Rightarrow> open_accepts location)"

text \<open>The requests sent, in the order of their \<open>send\<close>.\<close>

fun sends_of :: "event list \<Rightarrow> XMLHttpRequest list" where
  "sends_of [] = []"
| "sends_of (Sent x # es) = x # sends_of es"
| "sends_of (e # es) = sends_of es"

text \<open>No increment of the counter comes after a \<open>send\<close> in the trace.\<close>

fun sends_last :: "event list \<Rightarrow> bool" where
  "sends_last [] = True"
| "sends_last (Sent x # es) = (Incremented \<notin> set es \<and> sends_last es)"
| "sends_last (e # es) = sends_last es"

text \<open>
  The value of \<open>waitingXHRsRef.n\<close> at each \<open>send\<close> of a trace, replayed from the
  increments that precede it.
\<close>

fun counter_at_sends :: "int \<Rightarrow> event list \<Rightarrow> int list" where
  "counter_at_sends c [] = []"
| "counter_at_sends c (Incremented # es) = counter_at_sends (c + 1) es"
| "counter_at_sends c (Sent x # es) = c # counter_at_sends c es"
| "counter_at_sends c (e # es) = counter_at_sends c es"

text \<open>
  The final path segment of a location in the words of the specification: what follows its
  last \<open>/\<close>, and the whole location when it has none. It is not part of the program;
  the names that \<open>readScripts\<close> computes are compared with it.
\<close>

definition final_segment :: "string \<Rightarrow> string" where
  "final_segment location = rev (takeWhile (\<lambda>c. c \<noteq> CHR ''/'') (rev location))"

section \<open>The response handler: compile, showOutput and addScript\<close>

text \<open>The constructor's parameters (lines 83 to 88).\<close>

record Compiler =
  server :: string
  tsScriptType :: string
  tsconfigType :: string
  outputJsType :: string
  outputOtherType :: string

text \<open>
  The parsed response body, typed \<open>TSOutput & TSError\<close> in \<open>compile\<close>. A field that the
  body does not carry is \<open>undefined\<close> in the program: \<open>None\<close> here for \<open>reason\<close>,
  \<open>result\<close> and \<open>files\<close>, and \<open>False\<close> for \<open>error\<close> and \<open>success\<close>, which the
  program only tests for truth. Fields that are present have the types of the interfaces.
\<close>

record TSOutput =
  error :: bool
  reason :: "string option"
  success :: bool
  result :: "string option"
  files :: "TSFile list option"

text \<open>
  What the handler does to the host document, in order: the calls of \<open>setError\<close>,
  \<open>hideSpinner\<close> and \<open>hideStatus\<close>, the insertion of the \<open>div\<close> that holds the
  extracted \<open>pre\<close> element, and the \<open>appendChild\<close> of a script element with its type
  and content.
\<close>

datatype effect =
    SetError string
  | HideSpinner
  | HideStatus
  | ShowDiagnostic string
  | AppendScript string string

text \<open>A value in a string position: \<open>undefined\<close> is converted to the text "undefined".\<close>

definition to_string :: "string option \<Rightarrow> string" where
  "to_string v = (case v of None \<Rightarrow> ''undefined'' | Some s \<Rightarrow> s)"

text \<open>\<open>addScript\<close> (lines 127 to 138).\<close>

definition addScript :: "Compiler \<Rightarrow> TSFile \<Rightarrow> effect" where
  "addScript this file =
     AppendScript
       (if lastIndexOf (name file) ''.js'' = int (length (name file)) - 3
        then outputJsType this else outputOtherType this)
       (content file)"

text \<open>The loop of lines 167 to 169.\<close>

fun add_scripts :: "Compiler \<Rightarrow> effect list \<Rightarrow> TSFile list \<Rightarrow> effect list" where
  "add_scripts this doc [] = doc"
| "add_scripts this doc (file # rest) = add_scripts this (doc @ [addScript this file]) rest"

text \<open>
  \<open>showOutput\<close> (lines 145 to 170). The host's parser is a parameter:
  \<open>querySelector_pre markup\<close> is what
  \<open>createRange().createContextualFragment(markup).querySelector("pre")\<close> returns, the first
  \<open>pre\<close> element of the markup or \<open>null\<close>. \<open>div.appendChild(null)\<close> throws a
  \<open>TypeError\<close>, and so does \<open>for ... of\<close> over \<open>undefined\<close>; what was done to the
  document before the exception stays done.
\<close>

definition showOutput ::
  "Compiler \<Rightarrow> (string \<Rightarrow> string option) \<Rightarrow> TSOutput \<Rightarrow> effect list \<Rightarrow> (exn + unit) \<times> effect list" where
  "showOutput this querySelector_pre output doc =
     (case querySelector_pre (to_string (result output)) of
        None \<Rightarrow> (Inl TypeError, doc)
      | Some inner \<Rightarrow>
          (let doc1 = doc @ [ShowDiagnostic inner] in
           if \<not> success output
           then (Inr (), doc1 @ [SetError ''Compilation failed.'', HideSpinner])
           else
             (let doc2 = doc1 @ [HideStatus, HideSpinner] in
              case TSOutput.files output of
                None \<Rightarrow> (Inl TypeError, doc2)
              | Some fs \<Rightarrow> (Inr (), add_scripts this doc2 fs))))"

text \<open>
  The handler \<open>xhr.onload\<close> of \<open>compile\<close> (lines 101 to 113). Its input is the outcome
  of \<open>JSON.parse(xhr.responseText)\<close>: \<open>None\<close> when the body does not parse (a
  \<open>SyntaxError\<close>) or parses to \<open>null\<close> (reading \<open>output.error\<close> is then a
  \<open>TypeError\<close>), both caught at line 109; otherwise the parsed object. The request itself
  is sent by the callback of \<open>readScripts\<close> (lines 120 to 122) with the program as body.
\<close>

definition compile_onload ::
  "Compiler \<Rightarrow> (string \<Rightarrow> string option) \<Rightarrow> TSOutput option \<Rightarrow> effect list \<Rightarrow> effect list" where
  "compile_onload this querySelector_pre parsed doc =
     (case parsed of
        None \<Rightarrow> doc @ [SetError ''A server error occurred.'', HideSpinner]
      | Some output \<Rightarrow>
          (let doc1 = (if error output
                       then doc @ [SetError (''A server error occurred: <br/> '' @ to_string (reason output)),
                                   HideSpinner]
                       else doc)
           in case showOutput this querySelector_pre output doc1 of
                (Inl e, doc2) \<Rightarrow> doc2 @ [SetError ''A server error occurred.'', HideSpinner]
              | (Inr u, doc2) \<Rightarrow> doc2))"

text \<open>The handler \<open>xhr.onerror\<close> of \<open>compile\<close> (lines 115 to 118).\<close>

definition compile_onerror :: "effect list \<Rightarrow> effect list" where
  "compile_onerror doc = doc @ [SetError ''A server error occurred.'', HideSpinner]"

text \<open>The artifacts injected into the document, as (type, content) pairs in order.\<close>

fun injected :: "effect list \<Rightarrow> (string \<times> string) list" where
  "injected [] = []"
| "injected (AppendScript ty body # es) = (ty, body) # injected es"
| "injected (e # es) = injected es"

text \<open>
  The state of the status element: the last call of \<open>setError\<close> or \<open>hideStatus\<close>
  decides what it shows, since both overwrite its text and class.
\<close>

fun status_after :: "effect option \<Rightarrow> effect list \<Rightarrow> effect option" where
  "status_after cur [] = cur"
| "status_after cur (SetError msg # es) = status_after (Some (SetError msg)) es"
| "status_after cur (HideStatus # es) = status_after (Some HideStatus) es"
| "status_after cur (e # es) = status_after cur es"

text \<open>
  What the handler of \<open>compile\<close> does before it calls \<open>showOutput\<close> (lines 104 to
  107): the report of the reason when the body carries \<open>error\<close>.
\<close>

definition reason_report :: "TSOutput \<Rightarrow> effect list" where
  "reason_report output =
     (if error output
      then [SetError (''A server error occurred: <br/> '' @ to_string (reason output)), HideSpinner]
      else [])"

section \<open>Lemmas about the aggregation\<close>

text \<open>
  What \<open>readScript\<close>, the loop and \<open>readScripts\<close> do to the counter, the queue, the
  files and the trace, when they return and when they throw; what a schedule of fetch
  results does to them afterwards.
\<close>

lemma callbacks_of_append:
  "callbacks_of (es @ fs) = callbacks_of es @ callbacks_of fs"
  by (induction es rule: callbacks_of.induct) simp_all

lemma callbacks_of_Sent: "callbacks_of (map Sent xs) = []"
  by (induction xs) simp_all

lemma callbacks_of_replicate: "callbacks_of (replicate k Incremented) = []"
  by (induction k) simp_all

lemma sends_of_append: "sends_of (es @ fs) = sends_of es @ sends_of fs"
  by (induction es rule: sends_of.induct) simp_all

lemma sends_of_Sent: "sends_of (map Sent xs) = xs"
  by (induction xs) simp_all

lemma sends_of_replicate: "sends_of (replicate k Incremented) = []"
  by (induction k) simp_all

lemma sends_last_replicate_Incremented:
  "sends_last (replicate k Incremented @ es) = sends_last es"
  by (induction k) simp_all

lemma sends_last_Sent_tail:
  "Incremented \<notin> set es \<Longrightarrow> sends_last es \<Longrightarrow> sends_last (map Sent xs @ es)"
  by (induction xs) auto

lemma counter_replicate_Incremented:
  "counter_at_sends c (replicate k Incremented @ es) = counter_at_sends (c + int k) es"
  by (induction k arbitrary: c) (simp_all add: algebra_simps)

lemma counter_Sent:
  "counter_at_sends c (map Sent xs @ es) = replicate (length xs) c @ counter_at_sends c es"
  by (induction xs) simp_all

lemma filter_enumerate_length:
  "length (filter (\<lambda>(i, s). P s) (enumerate k ss)) = length (filter P ss)"
  by (induction ss arbitrary: k) simp_all

text \<open>One call of \<open>readScript\<close>.\<close>

lemma readScript_inline:
  "\<not> remote s \<Longrightarrow>
   readScript a st nm s =
     Returned (st\<lparr>store.files := store.files st @ [\<lparr>name = nm, content = innerHTML s\<rparr>]\<rparr>)"
  by (simp add: readScript_def remote_def split: option.splits)

lemma readScript_accepted:
  "remote s \<Longrightarrow> opens a s \<Longrightarrow>
   readScript a st nm s =
     Returned (st\<lparr>n := n st + 1, events := events st @ [Incremented],
                  xhrs := xhrs st @ [\<lparr>url = the (src_attribute s), onload_name = nm\<rparr>]\<rparr>)"
  by (auto simp add: readScript_def remote_def opens_def Let_def split: option.splits)

lemma readScript_rejected:
  "\<not> opens a s \<Longrightarrow>
   readScript a st nm s =
     Thrown SyntaxError (st\<lparr>n := n st + 1, events := events st @ [Incremented]\<rparr>)"
  by (auto simp add: readScript_def opens_def Let_def split: option.splits)

lemma rejected_remote: "\<not> opens a s \<Longrightarrow> remote s"
  by (auto simp add: opens_def remote_def split: option.splits)

text \<open>The loop, when every location is accepted.\<close>

lemma read_loop_returns:
  "list_all (opens a) ss \<Longrightarrow>
   \<exists>st1. read_loop a st k ss = Returned st1 \<and>
     n st1 = n st + int (length (filter remote ss)) \<and>
     called st1 = called st \<and>
     events st1 = events st @ replicate (length (filter remote ss)) Incremented \<and>
     xhrs st1 = xhrs st @
       map (\<lambda>(i, s). \<lparr>url = the (src_attribute s), onload_name = script_name i s\<rparr>)
         (filter (\<lambda>(i, s). remote s) (enumerate k ss)) \<and>
     store.files st1 = store.files st @
       map (\<lambda>(i, s). \<lparr>name = script_name i s, content = innerHTML s\<rparr>)
         (filter (\<lambda>(i, s). \<not> remote s) (enumerate k ss))"
proof (induction ss arbitrary: st k)
  case Nil
  show ?case by simp
next
  case (Cons s ss)
  then have rest: "list_all (opens a) ss" and this_one: "opens a s" by simp_all
  show ?case
  proof (cases "remote s")
    case True
    let ?st = "st\<lparr>n := n st + 1, events := events st @ [Incremented],
                  xhrs := xhrs st @ [\<lparr>url = the (src_attribute s), onload_name = script_name k s\<rparr>]\<rparr>"
    have step: "read_loop a st k (s # ss) = read_loop a ?st (Suc k) ss"
      using True this_one by (simp add: readScript_accepted)
    from Cons.IH [OF rest, of ?st "Suc k"] show ?thesis
      unfolding step using True by (auto simp add: replicate_app_Cons_same)
  next
    case False
    let ?st = "st\<lparr>store.files := store.files st @ [\<lparr>name = script_name k s, content = innerHTML s\<rparr>]\<rparr>"
    have step: "read_loop a st k (s # ss) = read_loop a ?st (Suc k) ss"
      using False by (simp add: readScript_inline)
    from Cons.IH [OF rest, of ?st "Suc k"] show ?thesis
      unfolding step using False by auto
  qed
qed

text \<open>The loop, when a location is rejected.\<close>

lemma read_loop_throws:
  "\<not> list_all (opens a) ss \<Longrightarrow>
   \<exists>st1 m. read_loop a st k ss = Thrown SyntaxError st1 \<and>
     0 < m \<and>
     n st1 = n st + int m \<and>
     called st1 = called st \<and>
     events st1 = events st @ replicate m Incremented"
proof (induction ss arbitrary: st k)
  case Nil
  then show ?case by simp
next
  case (Cons s ss)
  show ?case
  proof (cases "opens a s")
    case False
    then have "read_loop a st k (s # ss) =
        Thrown SyntaxError (st\<lparr>n := n st + 1, events := events st @ [Incremented]\<rparr>)"
      by (simp add: readScript_rejected)
    then have "read_loop a st k (s # ss) =
        Thrown SyntaxError (st\<lparr>n := n st + 1, events := events st @ [Incremented]\<rparr>) \<and>
      0 < (1::nat) \<and>
      n (st\<lparr>n := n st + 1, events := events st @ [Incremented]\<rparr>) = n st + int 1 \<and>
      called (st\<lparr>n := n st + 1, events := events st @ [Incremented]\<rparr>) = called st \<and>
      events (st\<lparr>n := n st + 1, events := events st @ [Incremented]\<rparr>) =
        events st @ replicate 1 Incremented"
      by simp
    then show ?thesis by blast
  next
    case True
    with Cons.prems have rest: "\<not> list_all (opens a) ss" by simp
    show ?thesis
    proof (cases "remote s")
      case r: True
      let ?st = "st\<lparr>n := n st + 1, events := events st @ [Incremented],
                  xhrs := xhrs st @ [\<lparr>url = the (src_attribute s), onload_name = script_name k s\<rparr>]\<rparr>"
      have step: "read_loop a st k (s # ss) = read_loop a ?st (Suc k) ss"
        using r True by (simp add: readScript_accepted)
      from Cons.IH [OF rest, of ?st "Suc k"] obtain st1 m where
        "read_loop a ?st (Suc k) ss = Thrown SyntaxError st1" "0 < m"
        "n st1 = n ?st + int m" "called st1 = called ?st"
        "events st1 = events ?st @ replicate m Incremented"
        by blast
      then have "read_loop a st k (s # ss) = Thrown SyntaxError st1 \<and> 0 < Suc m \<and>
          n st1 = n st + int (Suc m) \<and> called st1 = called st \<and>
          events st1 = events st @ replicate (Suc m) Incremented"
        unfolding step by (simp add: replicate_app_Cons_same)
      then show ?thesis by blast
    next
      case r: False
      let ?st = "st\<lparr>store.files := store.files st @ [\<lparr>name = script_name k s, content = innerHTML s\<rparr>]\<rparr>"
      have step: "read_loop a st k (s # ss) = read_loop a ?st (Suc k) ss"
        using r by (simp add: readScript_inline)
      from Cons.IH [OF rest, of ?st "Suc k"] show ?thesis
        unfolding step by simp
    qed
  qed
qed

lemma readScripts_returns:
  assumes "list_all (opens a) (elements scripts config)"
  shows "\<exists>st. readScripts a scripts config = Returned st \<and>
     n st = int (remote_count scripts config) \<and>
     called st = False \<and>
     xhrs st =
       map (\<lambda>(i, s). \<lparr>url = the (src_attribute s), onload_name = script_name i s\<rparr>)
         (filter (\<lambda>(i, s). remote s) (enumerate 0 scripts))
       @ (case config of
            None \<Rightarrow> []
          | Some c \<Rightarrow> if remote c
                      then [\<lparr>url = the (src_attribute c), onload_name = ''tsconfig.json''\<rparr>] else []) \<and>
     store.files st =
       map (\<lambda>(i, s). \<lparr>name = script_name i s, content = innerHTML s\<rparr>)
         (filter (\<lambda>(i, s). \<not> remote s) (enumerate 0 scripts))
       @ (case config of
            None \<Rightarrow> []
          | Some c \<Rightarrow> if remote c then []
                      else [\<lparr>name = ''tsconfig.json'', content = innerHTML c\<rparr>]) \<and>
     events st =
       (if config = None
        then [Note ''TypeScript config not found... compilation is very unlikely to succeed.'' True]
        else [])
       @ replicate (remote_count scripts config) Incremented
       @ map Sent (xhrs st)
       @ (if remote_count scripts config = 0
          then [Callback \<lparr>TSProgram.files = store.files st\<rparr>] else [])"
proof -
  let ?note = "if config = None
        then [Note ''TypeScript config not found... compilation is very unlikely to succeed.'' True]
        else []"
  let ?st0 = "if config = None
                 then initial\<lparr>events :=
                   [Note ''TypeScript config not found... compilation is very unlikely to succeed.'' True]\<rparr>
                 else initial"
  from assms have scripts_ok: "list_all (opens a) scripts"
    by (simp add: elements_def)
  from read_loop_returns [OF scripts_ok, of ?st0 0] obtain st1 where
    loop: "read_loop a ?st0 0 scripts = Returned st1"
    and n1: "n st1 = n ?st0 + int (length (filter remote scripts))"
    and c1: "called st1 = called ?st0"
    and e1: "events st1 = events ?st0 @ replicate (length (filter remote scripts)) Incremented"
    and x1: "xhrs st1 = xhrs ?st0 @
       map (\<lambda>(i, s). \<lparr>url = the (src_attribute s), onload_name = script_name i s\<rparr>)
         (filter (\<lambda>(i, s). remote s) (enumerate 0 scripts))"
    and f1: "store.files st1 = store.files ?st0 @
       map (\<lambda>(i, s). \<lparr>name = script_name i s, content = innerHTML s\<rparr>)
         (filter (\<lambda>(i, s). \<not> remote s) (enumerate 0 scripts))"
    by blast
  have init: "n ?st0 = 0" "called ?st0 = False" "xhrs ?st0 = []" "store.files ?st0 = []"
    "events ?st0 = ?note"
    by (simp_all add: initial_def)
  show ?thesis
  proof (cases config)
    case None
    have en: "enumerate_scripts a scripts config = Returned st1"
      using loop None by (simp add: enumerate_scripts_def)
    have rs: "readScripts a scripts config = Returned (post_dispatch_check (send_all st1))"
      by (simp add: readScripts_def en)
    have R: "remote_count scripts config = length (filter remote scripts)"
      using None by (simp add: remote_count_def elements_def)
    show ?thesis
      using None n1 c1 e1 x1 f1 init rs R
      by (simp add: post_dispatch_check_def send_all_def)
  next
    case (Some c)
    with assms have c_ok: "opens a c" by (simp add: elements_def)
    have R: "remote_count scripts config =
        length (filter remote scripts) + (if remote c then 1 else 0)"
      using Some by (simp add: remote_count_def elements_def)
    show ?thesis
    proof (cases "remote c")
      case True
      let ?st2 = "st1\<lparr>n := n st1 + 1, events := events st1 @ [Incremented],
                  xhrs := xhrs st1 @ [\<lparr>url = the (src_attribute c), onload_name = ''tsconfig.json''\<rparr>]\<rparr>"
      have en: "enumerate_scripts a scripts config = Returned ?st2"
        using loop Some True c_ok by (simp add: enumerate_scripts_def readScript_accepted)
      have rs: "readScripts a scripts config = Returned (post_dispatch_check (send_all ?st2))"
        by (simp add: readScripts_def en)
      show ?thesis
        using Some True n1 c1 e1 x1 f1 init rs R
        by (simp add: post_dispatch_check_def send_all_def replicate_append_same)
    next
      case False
      let ?st2 = "st1\<lparr>store.files := store.files st1 @
                      [\<lparr>name = ''tsconfig.json'', content = innerHTML c\<rparr>]\<rparr>"
      have en: "enumerate_scripts a scripts config = Returned ?st2"
        using loop Some False by (simp add: enumerate_scripts_def readScript_inline)
      have rs: "readScripts a scripts config = Returned (post_dispatch_check (send_all ?st2))"
        by (simp add: readScripts_def en)
      show ?thesis
        using Some False n1 c1 e1 x1 f1 init rs R
        by (simp add: post_dispatch_check_def send_all_def)
    qed
  qed
qed

lemma readScripts_throws:
  assumes "\<not> list_all (opens a) (elements scripts config)"
  shows "\<exists>st m. readScripts a scripts config = Thrown SyntaxError st \<and>
     0 < m \<and> n st = int m \<and> called st = False \<and>
     events st =
       (if config = None
        then [Note ''TypeScript config not found... compilation is very unlikely to succeed.'' True]
        else [])
       @ replicate m Incremented"
proof -
  let ?note = "if config = None
        then [Note ''TypeScript config not found... compilation is very unlikely to succeed.'' True]
        else []"
  let ?st0 = "if config = None
                 then initial\<lparr>events :=
                   [Note ''TypeScript config not found... compilation is very unlikely to succeed.'' True]\<rparr>
                 else initial"
  have init: "n ?st0 = 0" "called ?st0 = False" "events ?st0 = ?note"
    by (simp_all add: initial_def)
  show ?thesis
  proof (cases "list_all (opens a) scripts")
    case False
    from read_loop_throws [OF False, of ?st0 0] obtain st1 m where
      loop: "read_loop a ?st0 0 scripts = Thrown SyntaxError st1" and m: "0 < m"
      and n1: "n st1 = n ?st0 + int m" and c1: "called st1 = called ?st0"
      and e1: "events st1 = events ?st0 @ replicate m Incremented"
      by blast
    have "readScripts a scripts config = Thrown SyntaxError st1"
      using loop by (simp add: readScripts_def enumerate_scripts_def)
    with m n1 c1 e1 init have "readScripts a scripts config = Thrown SyntaxError st1 \<and>
       0 < m \<and> n st1 = int m \<and> called st1 = False \<and> events st1 = ?note @ replicate m Incremented"
      by simp
    then show ?thesis by blast
  next
    case True
    with assms obtain c where conf: "config = Some c" and c_bad: "\<not> opens a c"
      by (cases config) (auto simp add: elements_def)
    from read_loop_returns [OF True, of ?st0 0] obtain st1 where
      loop: "read_loop a ?st0 0 scripts = Returned st1"
      and n1: "n st1 = n ?st0 + int (length (filter remote scripts))"
      and c1: "called st1 = called ?st0"
      and e1: "events st1 = events ?st0 @ replicate (length (filter remote scripts)) Incremented"
      by blast
    let ?st2 = "st1\<lparr>n := n st1 + 1, events := events st1 @ [Incremented]\<rparr>"
    let ?m = "Suc (length (filter remote scripts))"
    have "readScripts a scripts config = Thrown SyntaxError ?st2"
      using loop conf c_bad
      by (simp add: readScripts_def enumerate_scripts_def readScript_rejected)
    with n1 c1 e1 init conf have "readScripts a scripts config = Thrown SyntaxError ?st2 \<and>
       0 < ?m \<and> n ?st2 = int ?m \<and> called ?st2 = False \<and>
       events ?st2 = ?note @ replicate ?m Incremented"
      by (simp add: replicate_append_same)
    then show ?thesis by blast
  qed
qed

lemma readScripts_returned_iff:
  "returned (readScripts a scripts config) = list_all (opens a) (elements scripts config)"
proof (cases "list_all (opens a) (elements scripts config)")
  case True
  from readScripts_returns [OF True] obtain st where
    "readScripts a scripts config = Returned st" by blast
  with True show ?thesis by simp
next
  case False
  from readScripts_throws [OF False] obtain st where
    "readScripts a scripts config = Thrown SyntaxError st" by blast
  with False show ?thesis by simp
qed

lemma remote_inline_total:
  "remote_count scripts config + inline_count scripts config = length (elements scripts config)"
  by (simp add: remote_count_def inline_count_def sum_length_filter_compl)

lemma run_Nil: "run st [] = st"
  by (simp add: run_def)

lemma run_Cons: "run st (c # cs) = run (deliver st c) cs"
  by (simp add: run_def)

lemma onload_n: "n (onload st x body) = n st - 1"
  by (simp add: onload_def Let_def)

lemma onload_called: "called (onload st x body) = called st"
  by (simp add: onload_def Let_def)

lemma onload_files: "store.files (onload st x body) = store.files st @ [\<lparr>name = onload_name x, content = body\<rparr>]"
  by (simp add: onload_def Let_def)

lemma onload_callbacks:
  "callbacks (onload st x body) =
     callbacks st @ (if n st = 1 \<and> \<not> called st
                     then [\<lparr>TSProgram.files = store.files st @ [\<lparr>name = onload_name x, content = body\<rparr>]\<rparr>]
                     else [])"
  by (simp add: onload_def Let_def callbacks_def callbacks_of_append)

lemma run_all_loaded:
  "list_all loaded sched \<Longrightarrow> n st = int (length sched) \<Longrightarrow> \<not> called st \<Longrightarrow> sched \<noteq> [] \<Longrightarrow>
   \<exists>p. callbacks (run st sched) = callbacks st @ [p] \<and>
       length (TSProgram.files p) = length (store.files st) + length sched"
proof (induction sched arbitrary: st)
  case Nil
  then show ?case by simp
next
  case (Cons c cs)
  obtain x r where c: "c = (x, r)" by (cases c)
  from Cons.prems(1) c obtain status body where r: "r = Load status body"
    by (cases r) simp_all
  let ?st = "onload st x body"
  have step: "run st (c # cs) = run ?st cs" by (simp add: run_Cons c r)
  show ?case
  proof (cases "cs = []")
    case True
    have "run st (c # cs) = ?st" using step True by (simp add: run_Nil)
    moreover have "n st = 1" using Cons.prems True by simp
    ultimately show ?thesis
      using Cons.prems True by (simp add: onload_callbacks)
  next
    case False
    have "\<exists>p. callbacks (run ?st cs) = callbacks ?st @ [p] \<and>
       length (TSProgram.files p) = length (store.files ?st) + length cs"
      using Cons.prems False by (intro Cons.IH) (simp_all add: onload_n onload_called)
    moreover have "callbacks ?st = callbacks st"
      using Cons.prems False by (cases cs) (simp_all add: onload_callbacks)
    ultimately show ?thesis by (simp add: step onload_files)
  qed
qed

lemma run_called: "called (run st schedule) = called st"
proof (induction schedule arbitrary: st)
  case Nil
  show ?case by (simp add: run_Nil)
next
  case (Cons c cs)
  obtain x r where "c = (x, r)" by (cases c)
  then show ?case using Cons.IH by (cases r) (simp_all add: run_Cons onload_called)
qed

lemma post_dispatch_check_called: "called (post_dispatch_check st) = called st"
  by (simp add: post_dispatch_check_def)

lemma deliver_n:
  "n (deliver st c) = n st - (if loaded c then 1 else 0)"
proof -
  obtain x r where "c = (x, r)" by (cases c)
  then show ?thesis by (cases r) (simp_all add: onload_n)
qed

lemma deliver_called: "called (deliver st c) = called st"
proof -
  obtain x r where "c = (x, r)" by (cases c)
  then show ?thesis by (cases r) (simp_all add: onload_called)
qed

lemma deliver_callbacks_waiting:
  assumes "1 < n st"
  shows "callbacks (deliver st c) = callbacks st"
proof -
  obtain x r where "c = (x, r)" by (cases c)
  then show ?thesis using assms by (cases r) (simp_all add: onload_callbacks)
qed

lemma deliver_NetworkError: "\<not> loaded c \<Longrightarrow> deliver st c = st"
proof -
  assume a: "\<not> loaded c"
  obtain x r where "c = (x, r)" by (cases c)
  then show ?thesis using a by (cases r) simp_all
qed

lemma run_too_few_loads:
  "int (length (filter loaded schedule)) < n st \<Longrightarrow> callbacks (run st schedule) = callbacks st"
proof (induction schedule arbitrary: st)
  case Nil
  show ?case by (simp add: run_Nil)
next
  case (Cons c cs)
  show ?case
  proof (cases "loaded c")
    case True
    with Cons.prems have big: "1 < n st" by simp
    have "int (length (filter loaded cs)) < n (deliver st c)"
      using Cons.prems True by (simp add: deliver_n)
    then have "callbacks (run (deliver st c) cs) = callbacks (deliver st c)"
      by (rule Cons.IH)
    with big show ?thesis by (simp add: run_Cons deliver_callbacks_waiting)
  next
    case False
    with Cons.prems have "int (length (filter loaded cs)) < n st" by simp
    then have "callbacks (run st cs) = callbacks st" by (rule Cons.IH)
    with False show ?thesis by (simp add: run_Cons deliver_NetworkError)
  qed
qed

lemma filter_loaded_short:
  "\<not> list_all loaded schedule \<Longrightarrow> length (filter loaded schedule) < length schedule"
  by (induction schedule) (auto simp add: less_Suc_eq_le)

lemma readScripts_summary:
  assumes "list_all (opens a) (elements scripts config)"
  shows "\<exists>st. readScripts a scripts config = Returned st \<and>
     n st = int (remote_count scripts config) \<and>
     called st = False \<and>
     sends_of (events st) = xhrs st \<and>
     length (xhrs st) = remote_count scripts config \<and>
     length (store.files st) = inline_count scripts config \<and>
     callbacks st =
       (if remote_count scripts config = 0 then [\<lparr>TSProgram.files = store.files st\<rparr>] else []) \<and>
     sends_last (events st) \<and>
     counter_at_sends 0 (events st) =
       replicate (remote_count scripts config) (int (remote_count scripts config))"
proof -
  from readScripts_returns [OF assms] obtain st where
    r: "readScripts a scripts config = Returned st"
    and n: "n st = int (remote_count scripts config)"
    and c: "called st = False"
    and x: "xhrs st =
       map (\<lambda>(i, s). \<lparr>url = the (src_attribute s), onload_name = script_name i s\<rparr>)
         (filter (\<lambda>(i, s). remote s) (enumerate 0 scripts))
       @ (case config of
            None \<Rightarrow> []
          | Some c \<Rightarrow> if remote c
                      then [\<lparr>url = the (src_attribute c), onload_name = ''tsconfig.json''\<rparr>] else [])"
    and f: "store.files st =
       map (\<lambda>(i, s). \<lparr>name = script_name i s, content = innerHTML s\<rparr>)
         (filter (\<lambda>(i, s). \<not> remote s) (enumerate 0 scripts))
       @ (case config of
            None \<Rightarrow> []
          | Some c \<Rightarrow> if remote c then []
                      else [\<lparr>name = ''tsconfig.json'', content = innerHTML c\<rparr>])"
    and e: "events st =
       (if config = None
        then [Note ''TypeScript config not found... compilation is very unlikely to succeed.'' True]
        else [])
       @ replicate (remote_count scripts config) Incremented
       @ map Sent (xhrs st)
       @ (if remote_count scripts config = 0
          then [Callback \<lparr>TSProgram.files = store.files st\<rparr>] else [])"
    by blast
  have lx: "length (xhrs st) = remote_count scripts config"
    by (cases config)
       (simp_all add: x remote_count_def elements_def filter_enumerate_length)
  have lf: "length (store.files st) = inline_count scripts config"
    by (cases config)
       (simp_all add: f inline_count_def elements_def filter_enumerate_length)
  have s: "sends_of (events st) = xhrs st"
    by (simp add: e sends_of_append sends_of_Sent sends_of_replicate)
  have cb: "callbacks st =
       (if remote_count scripts config = 0 then [\<lparr>TSProgram.files = store.files st\<rparr>] else [])"
    by (simp add: callbacks_def e callbacks_of_append callbacks_of_Sent callbacks_of_replicate)
  have sl: "sends_last (events st)"
    by (simp add: e sends_last_replicate_Incremented sends_last_Sent_tail)
  have cs: "counter_at_sends 0 (events st) =
       replicate (remote_count scripts config) (int (remote_count scripts config))"
    by (simp add: e counter_replicate_Incremented counter_Sent lx)
  from r n c s lx lf cb sl cs show ?thesis by blast
qed

lemma readScripts_aborts:
  assumes "\<not> list_all (opens a) (elements scripts config)"
  shows "\<exists>st. readScripts a scripts config = Thrown SyntaxError st \<and>
     called st = False \<and>
     sends_of (events st) = [] \<and>
     callbacks st = [] \<and>
     sends_last (events st) \<and>
     counter_at_sends 0 (events st) = []"
proof -
  from readScripts_throws [OF assms] obtain st m where
    r: "readScripts a scripts config = Thrown SyntaxError st"
    and c: "called st = False"
    and e: "events st =
       (if config = None
        then [Note ''TypeScript config not found... compilation is very unlikely to succeed.'' True]
        else [])
       @ replicate m Incremented"
    by blast
  have s: "sends_of (events st) = []"
    by (simp add: e sends_of_append sends_of_replicate)
  have cb: "callbacks st = []"
    by (simp add: callbacks_def e callbacks_of_append callbacks_of_replicate)
  have sl: "sends_last (events st)"
    using sends_last_replicate_Incremented [of m "[]"] by (simp add: e)
  have cs: "counter_at_sends 0 (events st) = []"
    using counter_replicate_Incremented [of 0 m "[]"] by (simp add: e)
  from r c s cb sl cs show ?thesis by blast
qed

lemma called_stays_false:
  "called (run (state_of (readScripts a scripts config)) schedule) = False \<and>
   called (post_dispatch_check (run (state_of (readScripts a scripts config)) schedule)) = False"
proof (cases "list_all (opens a) (elements scripts config)")
  case True
  from readScripts_summary [OF True] obtain st where
    "readScripts a scripts config = Returned st" "called st = False" by blast
  then show ?thesis by (simp add: run_called post_dispatch_check_called)
next
  case False
  from readScripts_aborts [OF False] obtain st where
    "readScripts a scripts config = Thrown SyntaxError st" "called st = False" by blast
  then show ?thesis by (simp add: run_called post_dispatch_check_called)
qed

lemma no_remote_opens:
  assumes "remote_count scripts config = 0"
  shows "list_all (opens a) (elements scripts config)"
proof -
  from assms have "filter remote (elements scripts config) = []"
    by (simp add: remote_count_def)
  then have "\<forall>s\<in>set (elements scripts config). \<not> remote s"
    by (simp add: filter_empty_conv)
  then show ?thesis
    by (auto simp add: list_all_iff opens_def remote_def split: option.splits)
qed

text \<open>Where \<open>lastIndexOf\<close> finds its pattern, and the names that follow from it.\<close>

lemma lastIndexOf_from_none:
  "(\<forall>i\<le>k. take (length pat) (drop i s) \<noteq> pat) \<Longrightarrow> lastIndexOf_from s pat k = - 1"
  by (induction k) simp_all

lemma lastIndexOf_from_found:
  "j \<le> k \<Longrightarrow> take (length pat) (drop j s) = pat \<Longrightarrow>
   (\<forall>i. j < i \<and> i \<le> k \<longrightarrow> take (length pat) (drop i s) \<noteq> pat) \<Longrightarrow>
   lastIndexOf_from s pat k = int j"
proof (induction k)
  case 0
  then show ?case by simp
next
  case (Suc k)
  show ?case
  proof (cases "j = Suc k")
    case True
    with Suc.prems show ?thesis by simp
  next
    case False
    with Suc.prems have "j \<le> k" by simp
    moreover have "take (length pat) (drop (Suc k) s) \<noteq> pat"
      using Suc.prems False by simp
    ultimately show ?thesis using Suc by simp
  qed
qed

lemma lastIndexOf_from_sound:
  "lastIndexOf_from s pat k = - 1 \<or>
   (\<exists>j\<le>k. lastIndexOf_from s pat k = int j \<and> take (length pat) (drop j s) = pat)"
  by (induction k) auto

lemma take1_slash: "take (Suc 0) xs = ''/'' \<Longrightarrow> CHR ''/'' \<in> set xs"
  by (cases xs) simp_all

lemma lastIndexOf_no_slash:
  assumes "CHR ''/'' \<notin> set s"
  shows "lastIndexOf s ''/'' = - 1"
proof -
  have "take (length ''/'') (drop i s) \<noteq> ''/''" for i
    using assms take1_slash [of "drop i s"] in_set_dropD [of "CHR ''/''" i s] by auto
  then show ?thesis
    unfolding lastIndexOf_def by (intro lastIndexOf_from_none) blast
qed

lemma lastIndexOf_last_slash:
  assumes "CHR ''/'' \<notin> set seg"
  shows "lastIndexOf (pre @ CHR ''/'' # seg) ''/'' = int (length pre)"
proof -
  let ?s = "pre @ CHR ''/'' # seg"
  have later: "take (length ''/'') (drop i ?s) \<noteq> ''/''" if "length pre < i" for i
  proof -
    from that obtain d where "i = length pre + Suc d"
      using less_imp_Suc_add by auto
    then have "drop i ?s = drop d seg"
      by simp
    then show ?thesis
      using assms take1_slash [of "drop d seg"] in_set_dropD [of "CHR ''/''" d seg] by auto
  qed
  show ?thesis
    unfolding lastIndexOf_def
    by (intro lastIndexOf_from_found) (use later in simp_all)
qed

lemma final_segment_no_slash:
  assumes "CHR ''/'' \<notin> set s"
  shows "final_segment s = s"
proof -
  have "takeWhile (\<lambda>c. c \<noteq> CHR ''/'') (rev s) = rev s"
    using assms by (auto simp add: takeWhile_eq_all_conv)
  then show ?thesis unfolding final_segment_def by (simp only: rev_rev_ident)
qed

lemma final_segment_last_slash:
  assumes "CHR ''/'' \<notin> set seg"
  shows "final_segment (pre @ CHR ''/'' # seg) = seg"
proof -
  have "takeWhile (\<lambda>c. c \<noteq> CHR ''/'') (rev seg @ CHR ''/'' # rev pre) =
      rev seg @ takeWhile (\<lambda>c. c \<noteq> CHR ''/'') (CHR ''/'' # rev pre)"
    using assms by (intro takeWhile_append2) auto
  then show ?thesis by (simp add: final_segment_def)
qed


lemma script_name_no_slash:
  "CHR ''/'' \<notin> set (src s) \<Longrightarrow> src s \<noteq> '''' \<Longrightarrow> script_name i s = src s"
  by (simp add: script_name_def substring_def lastIndexOf_no_slash Let_def)

lemma script_name_slash:
  "src s = pre @ CHR ''/'' # seg \<Longrightarrow> CHR ''/'' \<notin> set seg \<Longrightarrow> script_name i s = CHR ''/'' # seg"
  by (simp add: script_name_def substring_def lastIndexOf_last_slash Let_def)

lemma script_name_ends_with_segment:
  assumes "final_segment (src s) \<noteq> ''''"
  shows "\<exists>u. script_name i s = u @ final_segment (src s)"
proof (cases "CHR ''/'' \<in> set (src s)")
  case True
  then obtain pre seg where split: "src s = pre @ CHR ''/'' # seg" "CHR ''/'' \<notin> set seg"
    by (auto dest: split_list_last)
  then have "script_name i s = ''/'' @ final_segment (src s)"
    by (simp add: script_name_slash final_segment_last_slash)
  then show ?thesis by blast
next
  case False
  with assms have "src s \<noteq> ''''" by (auto simp add: final_segment_def)
  with False have "script_name i s = [] @ final_segment (src s)"
    by (simp add: script_name_no_slash final_segment_no_slash)
  then show ?thesis by blast
qed

text \<open>
  The test of \<open>addScript\<close> holds for the names that end in \<open>.js\<close> and for the names
  of two characters.
\<close>

lemma short_no_match:
  assumes "length s < i + length pat" and "pat \<noteq> []"
  shows "take (length pat) (drop i s) \<noteq> pat"
proof
  assume "take (length pat) (drop i s) = pat"
  then have "length (take (length pat) (drop i s)) = length pat" by simp
  then have "length pat \<le> length s - i" by simp
  with assms show False by (cases pat) simp_all
qed

lemma addScript_js_iff:
  "lastIndexOf nm ''.js'' = int (length nm) - 3 \<longleftrightarrow> (\<exists>u. nm = u @ ''.js'') \<or> length nm = 2"
proof
  assume eq: "lastIndexOf nm ''.js'' = int (length nm) - 3"
  from lastIndexOf_from_sound [of nm "''.js''" "length nm"]
  show "(\<exists>u. nm = u @ ''.js'') \<or> length nm = 2"
  proof
    assume "lastIndexOf_from nm ''.js'' (length nm) = - 1"
    with eq show ?thesis by (simp add: lastIndexOf_def)
  next
    assume "\<exists>j\<le>length nm. lastIndexOf_from nm ''.js'' (length nm) = int j \<and>
       take (length ''.js'') (drop j nm) = ''.js''"
    then obtain j where j: "lastIndexOf_from nm ''.js'' (length nm) = int j"
      "take (length ''.js'') (drop j nm) = ''.js''" by blast
    with eq have len: "length nm = j + 3" by (simp add: lastIndexOf_def)
    then have "length (drop j nm) = 3" by simp
    with j(2) have "drop j nm = ''.js''" by simp
    then have "nm = take j nm @ ''.js''" by (metis append_take_drop_id)
    then show ?thesis by blast
  qed
next
  assume "(\<exists>u. nm = u @ ''.js'') \<or> length nm = 2"
  then show "lastIndexOf nm ''.js'' = int (length nm) - 3"
  proof
    assume "\<exists>u. nm = u @ ''.js''"
    then obtain u where u: "nm = u @ ''.js''" by blast
    have "lastIndexOf_from nm ''.js'' (length nm) = int (length u)"
    proof (intro lastIndexOf_from_found)
      show "length u \<le> length nm" by (simp add: u)
      show "take (length ''.js'') (drop (length u) nm) = ''.js''" by (simp add: u)
      show "\<forall>i. length u < i \<and> i \<le> length nm \<longrightarrow> take (length ''.js'') (drop i nm) \<noteq> ''.js''"
      proof (intro allI impI)
        fix i assume "length u < i \<and> i \<le> length nm"
        then have "length nm < i + length ''.js''" by (simp add: u)
        then show "take (length ''.js'') (drop i nm) \<noteq> ''.js''"
          by (rule short_no_match) simp
      qed
    qed
    then show ?thesis by (simp add: lastIndexOf_def u)
  next
    assume two: "length nm = 2"
    have "lastIndexOf_from nm ''.js'' (length nm) = - 1"
    proof (intro lastIndexOf_from_none allI impI)
      fix i
      have "length nm < i + length ''.js''" using two by simp
      then show "take (length ''.js'') (drop i nm) \<noteq> ''.js''"
        by (rule short_no_match) simp
    qed
    then show ?thesis by (simp add: lastIndexOf_def two)
  qed
qed





text \<open>The trace of the response handler.\<close>

lemma add_scripts_map: "add_scripts this doc fs = doc @ map (addScript this) fs"
  by (induction fs arbitrary: doc) simp_all

lemma injected_append: "injected (es @ fs) = injected es @ injected fs"
  by (induction es rule: injected.induct) simp_all

lemma injected_addScript:
  "injected (map (addScript this) fs) =
     map (\<lambda>f. (if lastIndexOf (name f) ''.js'' = int (length (name f)) - 3
                then outputJsType this else outputOtherType this, content f)) fs"
  by (induction fs) (simp_all add: addScript_def)

lemma status_after_append:
  "status_after cur (es @ fs) = status_after (status_after cur es) fs"
  by (induction cur es rule: status_after.induct) simp_all

lemma showOutput_no_pre:
  "querySelector_pre (to_string (result output)) = None \<Longrightarrow>
   showOutput this querySelector_pre output doc = (Inl TypeError, doc)"
  by (simp add: showOutput_def)

lemma showOutput_pre:
  "querySelector_pre (to_string (result output)) = Some inner \<Longrightarrow>
   showOutput this querySelector_pre output doc =
     (if \<not> success output
      then (Inr (), doc @ [ShowDiagnostic inner, SetError ''Compilation failed.'', HideSpinner])
      else case TSOutput.files output of
             None \<Rightarrow> (Inl TypeError, doc @ [ShowDiagnostic inner, HideStatus, HideSpinner])
           | Some fs \<Rightarrow>
               (Inr (), doc @ [ShowDiagnostic inner, HideStatus, HideSpinner] @ map (addScript this) fs))"
  by (simp add: showOutput_def add_scripts_map split: option.splits)

lemma compile_onload_Some:
  "compile_onload this querySelector_pre (Some output) doc =
     (case showOutput this querySelector_pre output (doc @ reason_report output) of
        (Inl e, doc2) \<Rightarrow> doc2 @ [SetError ''A server error occurred.'', HideSpinner]
      | (Inr u, doc2) \<Rightarrow> doc2)"
  by (simp add: compile_onload_def reason_report_def)

lemma injected_reason_report: "injected (reason_report output) = []"
  by (simp add: reason_report_def)

lemma compile_onload_pre:
  assumes "querySelector_pre (to_string (result output)) = Some inner"
  shows "compile_onload this querySelector_pre (Some output) doc =
     doc @ reason_report output @ [ShowDiagnostic inner] @
     (if \<not> success output then [SetError ''Compilation failed.'', HideSpinner]
      else [HideStatus, HideSpinner] @
        (case TSOutput.files output of
           None \<Rightarrow> [SetError ''A server error occurred.'', HideSpinner]
         | Some fs \<Rightarrow> map (addScript this) fs))"
  using assms by (simp add: compile_onload_Some showOutput_pre split: option.splits)

text \<open>
  After a response that carries \<open>error\<close> the status element never shows the report of
  the reason: \<open>showOutput\<close> or the exception handler has overwritten it.
\<close>

lemma reason_report_never_stays:
  assumes "error output"
  shows "status_after cur (compile_onload this querySelector_pre (Some output) doc) \<in>
           {Some (SetError ''A server error occurred.''), Some (SetError ''Compilation failed.''),
            Some HideStatus}"
proof (cases "querySelector_pre (to_string (result output))")
  case None
  then show ?thesis
    by (simp add: compile_onload_Some showOutput_no_pre status_after_append)
next
  case (Some inner)
  have m: "status_after c (map (addScript this) fs) = c" for c fs
    by (induction fs) (simp_all add: addScript_def)
  show ?thesis
    by (simp add: compile_onload_pre [of querySelector_pre "output" inner this doc, OF Some]
        status_after_append m split: option.splits)
qed

section \<open>C1: one completion, with every fragment\<close>

text \<open>
  Claim C1 promises one invocation of the callback for every enumeration. A remote element
  whose location \<open>xhr.open\<close> rejects ends \<open>readScripts\<close> with the exception: in the
  document below, with one inline script, one remote script at the location \<open>http://\<close>
  and an inline configuration (R = 1, L = 2), the counter has been incremented, nothing
  is queued or sent, and with no request dispatched the callback is never invoked.
\<close>

theorem rejected_location_aborts:
  "readScripts (\<lambda>location. location \<noteq> ''http://'')
      [\<lparr>src_attribute = None, src = '''', innerHTML = ''let x = 1''\<rparr>,
       \<lparr>src_attribute = Some ''http://'', src = ''http://'', innerHTML = ''''\<rparr>]
      (Some \<lparr>src_attribute = None, src = '''', innerHTML = ''{}''\<rparr>) =
     Thrown SyntaxError
       \<lparr>n = 1, called = False, xhrs = [],
        store.files = [\<lparr>name = ''script-0.ts'', content = ''let x = 1''\<rparr>],
        events = [Incremented]\<rparr> \<and>
   remote_count
      [\<lparr>src_attribute = None, src = '''', innerHTML = ''let x = 1''\<rparr>,
       \<lparr>src_attribute = Some ''http://'', src = ''http://'', innerHTML = ''''\<rparr>]
      (Some \<lparr>src_attribute = None, src = '''', innerHTML = ''{}''\<rparr>) = 1 \<and>
   inline_count
      [\<lparr>src_attribute = None, src = '''', innerHTML = ''let x = 1''\<rparr>,
       \<lparr>src_attribute = Some ''http://'', src = ''http://'', innerHTML = ''''\<rparr>]
      (Some \<lparr>src_attribute = None, src = '''', innerHTML = ''{}''\<rparr>) = 2 \<and>
   sends_of [Incremented] = [] \<and>
   callbacks (run \<lparr>n = 1, called = False, xhrs = [],
        store.files = [\<lparr>name = ''script-0.ts'', content = ''let x = 1''\<rparr>],
        events = [Incremented]\<rparr> []) = []"
  by code_simp

text \<open>
  Claim C1, amended. Take any source elements and any configuration element, R of them
  remote and L inline, and any order in which the requests that were sent load, each
  exactly once. If \<open>xhr.open\<close> accepts the location of every remote element, then
  \<open>readScripts\<close> returns, the callback has been invoked exactly once when the last
  handler has run, and the program it received holds R + L files. Otherwise
  \<open>readScripts\<close> throws, no request is sent and the callback is not invoked.
\<close>

theorem readScripts_fires_once:
  assumes complete: "mset (map fst schedule) =
                       mset (sends_of (events (state_of (readScripts open_accepts scripts config))))"
      and loads: "list_all loaded schedule"
  shows "if list_all (opens open_accepts) (elements scripts config)
         then returned (readScripts open_accepts scripts config) \<and>
              (\<exists>p. callbacks (run (state_of (readScripts open_accepts scripts config)) schedule) = [p] \<and>
                   length (TSProgram.files p) =
                     remote_count scripts config + inline_count scripts config)
         else \<not> returned (readScripts open_accepts scripts config) \<and>
              sends_of (events (state_of (readScripts open_accepts scripts config))) = [] \<and>
              callbacks (run (state_of (readScripts open_accepts scripts config)) schedule) = []"
proof (cases "list_all (opens open_accepts) (elements scripts config)")
  case accepted: True
  from readScripts_summary [OF accepted] obtain st where
    r: "readScripts open_accepts scripts config = Returned st"
    and n: "n st = int (remote_count scripts config)"
    and c: "called st = False"
    and s: "sends_of (events st) = xhrs st"
    and lx: "length (xhrs st) = remote_count scripts config"
    and lf: "length (store.files st) = inline_count scripts config"
    and cb: "callbacks st =
       (if remote_count scripts config = 0 then [\<lparr>TSProgram.files = store.files st\<rparr>] else [])"
    by blast
  from complete r have "mset (map fst schedule) = mset (sends_of (events st))"
    by simp
  then have "length (map fst schedule) = length (sends_of (events st))"
    by (rule mset_eq_length)
  then have len: "length schedule = remote_count scripts config"
    by (simp add: s lx)
  have "\<exists>p. callbacks (run st schedule) = [p] \<and>
              length (TSProgram.files p) =
                remote_count scripts config + inline_count scripts config"
  proof (cases "remote_count scripts config = 0")
    case True
    with len have "schedule = []" by simp
    with True show ?thesis by (simp add: run_Nil cb lf)
  next
    case False
    with len have ne: "schedule \<noteq> []" by auto
    have "\<exists>p. callbacks (run st schedule) = callbacks st @ [p] \<and>
               length (TSProgram.files p) = length (store.files st) + length schedule"
      using loads ne by (intro run_all_loaded) (simp_all add: n c len)
    with False len show ?thesis
      by (simp add: cb lf add.commute)
  qed
  with r accepted show ?thesis by simp
next
  case rejected: False
  from readScripts_aborts [OF rejected] obtain st where
    r: "readScripts open_accepts scripts config = Thrown SyntaxError st"
    and s: "sends_of (events st) = []"
    and cb: "callbacks st = []"
    by blast
  from complete r s have "schedule = []" by simp
  with r s cb rejected show ?thesis by (simp add: run_Nil)
qed

theorem readScripts_fires_once_witness:
  "list_all (opens (\<lambda>location. location \<noteq> ''http://''))
     (elements
        [\<lparr>src_attribute = Some ''lib/a.ts'', src = ''http://h/lib/a.ts'', innerHTML = ''''\<rparr>,
         \<lparr>src_attribute = None, src = '''', innerHTML = ''let x = 1''\<rparr>]
        (Some \<lparr>src_attribute = None, src = '''', innerHTML = ''{}''\<rparr>)) \<and>
   mset (map fst [(\<lparr>url = ''lib/a.ts'', onload_name = ''/a.ts''\<rparr>, Load 200 ''export {}'')]) =
     mset (sends_of (events (state_of (readScripts (\<lambda>location. location \<noteq> ''http://'')
        [\<lparr>src_attribute = Some ''lib/a.ts'', src = ''http://h/lib/a.ts'', innerHTML = ''''\<rparr>,
         \<lparr>src_attribute = None, src = '''', innerHTML = ''let x = 1''\<rparr>]
        (Some \<lparr>src_attribute = None, src = '''', innerHTML = ''{}''\<rparr>))))) \<and>
   list_all loaded [(\<lparr>url = ''lib/a.ts'', onload_name = ''/a.ts''\<rparr>, Load 200 ''export {}'')] \<and>
   (\<exists>p. callbacks (run (state_of (readScripts (\<lambda>location. location \<noteq> ''http://'')
        [\<lparr>src_attribute = Some ''lib/a.ts'', src = ''http://h/lib/a.ts'', innerHTML = ''''\<rparr>,
         \<lparr>src_attribute = None, src = '''', innerHTML = ''let x = 1''\<rparr>]
        (Some \<lparr>src_attribute = None, src = '''', innerHTML = ''{}''\<rparr>)))
        [(\<lparr>url = ''lib/a.ts'', onload_name = ''/a.ts''\<rparr>, Load 200 ''export {}'')]) = [p] \<and>
      length (TSProgram.files p) = 3)"
proof -
  let ?a = "\<lambda>location. location \<noteq> ''http://''"
  let ?scripts = "[\<lparr>src_attribute = Some ''lib/a.ts'', src = ''http://h/lib/a.ts'', innerHTML = ''''\<rparr>,
         \<lparr>src_attribute = None, src = '''', innerHTML = ''let x = 1''\<rparr>]"
  let ?config = "Some \<lparr>src_attribute = None, src = '''', innerHTML = ''{}''\<rparr>"
  let ?schedule = "[(\<lparr>url = ''lib/a.ts'', onload_name = ''/a.ts''\<rparr>, Load 200 ''export {}'')]"
  have h0: "list_all (opens ?a) (elements ?scripts ?config)"
    by code_simp
  have x: "sends_of (events (state_of (readScripts ?a ?scripts ?config))) =
      [\<lparr>url = ''lib/a.ts'', onload_name = ''/a.ts''\<rparr>]"
    by code_simp
  have h1: "mset (map fst ?schedule) =
      mset (sends_of (events (state_of (readScripts ?a ?scripts ?config))))"
    by (simp add: x)
  have h2: "list_all loaded ?schedule"
    by simp
  have c: "remote_count ?scripts ?config + inline_count ?scripts ?config = 3"
    by code_simp
  from readScripts_fires_once [OF h1 h2] h0 have
    "\<exists>p. callbacks (run (state_of (readScripts ?a ?scripts ?config)) ?schedule) = [p] \<and>
        length (TSProgram.files p) = remote_count ?scripts ?config + inline_count ?scripts ?config"
    by simp
  with c have "\<exists>p. callbacks (run (state_of (readScripts ?a ?scripts ?config)) ?schedule) = [p] \<and>
        length (TSProgram.files p) = 3"
    by simp
  with h0 h1 h2 show ?thesis
    by blast
qed

section \<open>C2: the guard on called\<close>

text \<open>
  Claim C2 says that \<open>called\<close> goes from false to true once per aggregation attempt, and
  that a completion entry point invoked after the callback has run does not run it again.
  No statement of the program assigns \<open>called\<close>. The theorem evaluates the program on a
  document without script elements and on a document with one remote script whose request
  loads: in both runs the callback has been invoked once, \<open>called\<close> is still false, and
  the check after the dispatch, invoked once more, invokes the callback a second time.
\<close>

theorem fired_guard_refires:
  "readScripts (\<lambda>location. location \<noteq> ''http://'') [] None =
     Returned \<lparr>n = 0, called = False, xhrs = [], store.files = [],
       events = [Note ''TypeScript config not found... compilation is very unlikely to succeed.'' True,
                 Callback \<lparr>TSProgram.files = []\<rparr>]\<rparr> \<and>
   callbacks (state_of (readScripts (\<lambda>location. location \<noteq> ''http://'') [] None)) =
     [\<lparr>TSProgram.files = []\<rparr>] \<and>
   called (state_of (readScripts (\<lambda>location. location \<noteq> ''http://'') [] None)) = False \<and>
   callbacks (post_dispatch_check
       (state_of (readScripts (\<lambda>location. location \<noteq> ''http://'') [] None))) =
     [\<lparr>TSProgram.files = []\<rparr>, \<lparr>TSProgram.files = []\<rparr>] \<and>
   returned (readScripts (\<lambda>location. location \<noteq> ''http://'')
        [\<lparr>src_attribute = Some ''a.ts'', src = ''http://h/a.ts'', innerHTML = ''''\<rparr>]
        (Some \<lparr>src_attribute = None, src = '''', innerHTML = ''{}''\<rparr>)) \<and>
   sends_of (events (state_of (readScripts (\<lambda>location. location \<noteq> ''http://'')
        [\<lparr>src_attribute = Some ''a.ts'', src = ''http://h/a.ts'', innerHTML = ''''\<rparr>]
        (Some \<lparr>src_attribute = None, src = '''', innerHTML = ''{}''\<rparr>)))) =
     [\<lparr>url = ''a.ts'', onload_name = ''/a.ts''\<rparr>] \<and>
   callbacks (run (state_of (readScripts (\<lambda>location. location \<noteq> ''http://'')
        [\<lparr>src_attribute = Some ''a.ts'', src = ''http://h/a.ts'', innerHTML = ''''\<rparr>]
        (Some \<lparr>src_attribute = None, src = '''', innerHTML = ''{}''\<rparr>)))
      [(\<lparr>url = ''a.ts'', onload_name = ''/a.ts''\<rparr>, Load 200 ''let a'')]) =
     [\<lparr>TSProgram.files = [\<lparr>name = ''tsconfig.json'', content = ''{}''\<rparr>,
                            \<lparr>name = ''/a.ts'', content = ''let a''\<rparr>]\<rparr>] \<and>
   called (run (state_of (readScripts (\<lambda>location. location \<noteq> ''http://'')
        [\<lparr>src_attribute = Some ''a.ts'', src = ''http://h/a.ts'', innerHTML = ''''\<rparr>]
        (Some \<lparr>src_attribute = None, src = '''', innerHTML = ''{}''\<rparr>)))
      [(\<lparr>url = ''a.ts'', onload_name = ''/a.ts''\<rparr>, Load 200 ''let a'')]) = False \<and>
   length (callbacks (post_dispatch_check (run (state_of (readScripts (\<lambda>location. location \<noteq> ''http://'')
        [\<lparr>src_attribute = Some ''a.ts'', src = ''http://h/a.ts'', innerHTML = ''''\<rparr>]
        (Some \<lparr>src_attribute = None, src = '''', innerHTML = ''{}''\<rparr>)))
      [(\<lparr>url = ''a.ts'', onload_name = ''/a.ts''\<rparr>, Load 200 ''let a'')]))) = 2"
  by code_simp

section \<open>C3: no request is sent before the enumeration is complete\<close>

text \<open>
  Claim C3. In the trace of \<open>readScripts\<close> no increment of the counter follows a
  \<open>send\<close>, and at each \<open>send\<close> the counter already holds the value it has when
  \<open>readScripts\<close> ends, before any handler of a request can run. When \<open>readScripts\<close>
  returns, that value is R, the number of remote elements, and it is the value at each of
  the sends; when it throws, nothing has been sent.
\<close>

theorem dispatch_after_enumeration:
  "sends_last (events (state_of (readScripts open_accepts scripts config))) \<and>
   counter_at_sends 0 (events (state_of (readScripts open_accepts scripts config))) =
     replicate (length (sends_of (events (state_of (readScripts open_accepts scripts config)))))
       (n (state_of (readScripts open_accepts scripts config))) \<and>
   (if returned (readScripts open_accepts scripts config)
    then counter_at_sends 0 (events (state_of (readScripts open_accepts scripts config))) =
           replicate (remote_count scripts config) (int (remote_count scripts config)) \<and>
         n (state_of (readScripts open_accepts scripts config)) =
           int (remote_count scripts config)
    else sends_of (events (state_of (readScripts open_accepts scripts config))) = [])"
proof (cases "list_all (opens open_accepts) (elements scripts config)")
  case True
  from readScripts_summary [OF True] obtain st where
    "readScripts open_accepts scripts config = Returned st"
    "n st = int (remote_count scripts config)"
    "sends_of (events st) = xhrs st"
    "length (xhrs st) = remote_count scripts config"
    "sends_last (events st)"
    "counter_at_sends 0 (events st) =
       replicate (remote_count scripts config) (int (remote_count scripts config))"
    by blast
  then show ?thesis by simp
next
  case False
  from readScripts_aborts [OF False] obtain st where
    "readScripts open_accepts scripts config = Thrown SyntaxError st"
    "sends_of (events st) = []"
    "sends_last (events st)"
    "counter_at_sends 0 (events st) = []"
    by blast
  then show ?thesis by simp
qed

section \<open>C4: no remote fragment\<close>

text \<open>
  Claim C4. When no element is remote, \<open>readScripts\<close> returns and has itself invoked the
  callback, once and with every fragment; it sends no request, so there is no event to
  wait for; and every schedule of the (zero) requests sent leaves the state as
  \<open>readScripts\<close> returned it, which is the state C1 describes for the requests having
  all loaded.
\<close>

theorem zero_remote_fires_in_dispatch_pass:
  assumes "remote_count scripts config = 0"
  shows "returned (readScripts open_accepts scripts config) \<and>
         callbacks (state_of (readScripts open_accepts scripts config)) =
           [\<lparr>TSProgram.files = store.files (state_of (readScripts open_accepts scripts config))\<rparr>] \<and>
         length (store.files (state_of (readScripts open_accepts scripts config))) =
           remote_count scripts config + inline_count scripts config \<and>
         sends_of (events (state_of (readScripts open_accepts scripts config))) = [] \<and>
         (\<forall>schedule.
            mset (map fst schedule) =
              mset (sends_of (events (state_of (readScripts open_accepts scripts config)))) \<longrightarrow>
            run (state_of (readScripts open_accepts scripts config)) schedule =
              state_of (readScripts open_accepts scripts config))"
proof -
  have ok: "list_all (opens open_accepts) (elements scripts config)"
    using assms by (rule no_remote_opens)
  from readScripts_summary [OF ok] obtain st where
    r: "readScripts open_accepts scripts config = Returned st"
    and s: "sends_of (events st) = xhrs st"
    and lx: "length (xhrs st) = remote_count scripts config"
    and lf: "length (store.files st) = inline_count scripts config"
    and cb: "callbacks st =
       (if remote_count scripts config = 0 then [\<lparr>TSProgram.files = store.files st\<rparr>] else [])"
    by blast
  from lx assms have x: "xhrs st = []" by simp
  have d: "run st schedule = st" if "mset (map fst schedule) = mset (sends_of (events st))"
    for schedule
  proof -
    from that have "schedule = []" by (simp add: s x)
    then show ?thesis by (simp add: run_Nil)
  qed
  from r s x lf cb assms d show ?thesis by simp
qed

theorem zero_remote_fires_in_dispatch_pass_witness:
  "remote_count [\<lparr>src_attribute = None, src = '''', innerHTML = ''let x = 1''\<rparr>]
     (Some \<lparr>src_attribute = None, src = '''', innerHTML = ''{}''\<rparr>) = 0 \<and>
   mset (map fst ([] :: (XMLHttpRequest \<times> fetch_result) list)) =
     mset (sends_of (events (state_of (readScripts (\<lambda>location. location \<noteq> ''http://'')
       [\<lparr>src_attribute = None, src = '''', innerHTML = ''let x = 1''\<rparr>]
       (Some \<lparr>src_attribute = None, src = '''', innerHTML = ''{}''\<rparr>))))) \<and>
   callbacks (state_of (readScripts (\<lambda>location. location \<noteq> ''http://'')
       [\<lparr>src_attribute = None, src = '''', innerHTML = ''let x = 1''\<rparr>]
       (Some \<lparr>src_attribute = None, src = '''', innerHTML = ''{}''\<rparr>))) =
     [\<lparr>TSProgram.files = [\<lparr>name = ''script-0.ts'', content = ''let x = 1''\<rparr>,
                            \<lparr>name = ''tsconfig.json'', content = ''{}''\<rparr>]\<rparr>] \<and>
   run (state_of (readScripts (\<lambda>location. location \<noteq> ''http://'')
       [\<lparr>src_attribute = None, src = '''', innerHTML = ''let x = 1''\<rparr>]
       (Some \<lparr>src_attribute = None, src = '''', innerHTML = ''{}''\<rparr>))) [] =
   state_of (readScripts (\<lambda>location. location \<noteq> ''http://'')
       [\<lparr>src_attribute = None, src = '''', innerHTML = ''let x = 1''\<rparr>]
       (Some \<lparr>src_attribute = None, src = '''', innerHTML = ''{}''\<rparr>))"
proof -
  let ?a = "\<lambda>location. location \<noteq> ''http://''"
  let ?scripts = "[\<lparr>src_attribute = None, src = '''', innerHTML = ''let x = 1''\<rparr>]"
  let ?config = "Some \<lparr>src_attribute = None, src = '''', innerHTML = ''{}''\<rparr>"
  let ?st = "state_of (readScripts ?a ?scripts ?config)"
  have h: "remote_count ?scripts ?config = 0"
    by code_simp
  have fs: "store.files ?st =
      [\<lparr>name = ''script-0.ts'', content = ''let x = 1''\<rparr>,
       \<lparr>name = ''tsconfig.json'', content = ''{}''\<rparr>]"
    by code_simp
  note t = zero_remote_fires_in_dispatch_pass [OF h, of ?a]
  from t have s: "sends_of (events ?st) = []"
    by blast
  then have x: "mset (map fst ([] :: (XMLHttpRequest \<times> fetch_result) list)) =
      mset (sends_of (events ?st))"
    by simp
  from t have a: "callbacks ?st = [\<lparr>TSProgram.files = store.files ?st\<rparr>]"
    by blast
  from t x have b: "run ?st [] = ?st"
    by blast
  from a fs have a': "callbacks ?st =
     [\<lparr>TSProgram.files = [\<lparr>name = ''script-0.ts'', content = ''let x = 1''\<rparr>,
                            \<lparr>name = ''tsconfig.json'', content = ''{}''\<rparr>]\<rparr>]"
    by simp
  from h x a' b show ?thesis
    by blast
qed

section \<open>C5: the names of the fragments\<close>




section \<open>C6: fetches that fail\<close>

text \<open>
  Claim C6 lets the join complete whether the fetches succeed or fail. A fetch that fails
  in the network raises no \<open>load\<close> event, and \<open>readScript\<close> installs no other
  handler: with one remote script whose request is sent and fails so, the counter stays at
  1, nothing is added to the files and the callback is never invoked.
\<close>

theorem network_failure_blocks_join:
  "returned (readScripts (\<lambda>location. location \<noteq> ''http://'')
      [\<lparr>src_attribute = Some ''a.ts'', src = ''http://h/a.ts'', innerHTML = ''''\<rparr>] None) \<and>
   map fst [(\<lparr>url = ''a.ts'', onload_name = ''/a.ts''\<rparr>, NetworkError)] =
     sends_of (events (state_of (readScripts (\<lambda>location. location \<noteq> ''http://'')
       [\<lparr>src_attribute = Some ''a.ts'', src = ''http://h/a.ts'', innerHTML = ''''\<rparr>] None))) \<and>
   n (run (state_of (readScripts (\<lambda>location. location \<noteq> ''http://'')
       [\<lparr>src_attribute = Some ''a.ts'', src = ''http://h/a.ts'', innerHTML = ''''\<rparr>] None))
        [(\<lparr>url = ''a.ts'', onload_name = ''/a.ts''\<rparr>, NetworkError)]) = 1 \<and>
   store.files (run (state_of (readScripts (\<lambda>location. location \<noteq> ''http://'')
       [\<lparr>src_attribute = Some ''a.ts'', src = ''http://h/a.ts'', innerHTML = ''''\<rparr>] None))
        [(\<lparr>url = ''a.ts'', onload_name = ''/a.ts''\<rparr>, NetworkError)]) = [] \<and>
   callbacks (run (state_of (readScripts (\<lambda>location. location \<noteq> ''http://'')
       [\<lparr>src_attribute = Some ''a.ts'', src = ''http://h/a.ts'', innerHTML = ''''\<rparr>] None))
        [(\<lparr>url = ''a.ts'', onload_name = ''/a.ts''\<rparr>, NetworkError)]) = []"
  by code_simp

text \<open>
  Claim C6, amended. A request that loads is treated the same whatever its status code and
  text (an error page, an empty text): the handler appends a file with the text received
  and takes one off the counter. A request that fails in the network changes nothing. So,
  when every request that was sent has ended, the callback has been invoked once if
  \<open>xhr.open\<close> accepted every location and every request loaded, and not at all
  otherwise.
\<close>

theorem join_completes_iff_all_load:
  assumes complete: "mset (map fst schedule) =
                       mset (sends_of (events (state_of (readScripts open_accepts scripts config))))"
  shows "deliver st (xhr, Load status body) = deliver st (xhr, Load 200 body) \<and>
         n (deliver st (xhr, Load status body)) = n st - 1 \<and>
         store.files (deliver st (xhr, Load status body)) =
           store.files st @ [\<lparr>name = onload_name xhr, content = body\<rparr>] \<and>
         deliver st (xhr, NetworkError) = st \<and>
         length (callbacks (run (state_of (readScripts open_accepts scripts config)) schedule)) =
           (if list_all (opens open_accepts) (elements scripts config) \<and> list_all loaded schedule
            then 1 else 0)"
proof (cases "list_all (opens open_accepts) (elements scripts config)")
  case accepted: True
  from readScripts_summary [OF accepted] obtain st1 where
    r: "readScripts open_accepts scripts config = Returned st1"
    and n: "n st1 = int (remote_count scripts config)"
    and c: "called st1 = False"
    and s: "sends_of (events st1) = xhrs st1"
    and lx: "length (xhrs st1) = remote_count scripts config"
    and cb: "callbacks st1 =
       (if remote_count scripts config = 0 then [\<lparr>TSProgram.files = store.files st1\<rparr>] else [])"
    by blast
  from complete r have "mset (map fst schedule) = mset (sends_of (events st1))"
    by simp
  then have "length (map fst schedule) = length (sends_of (events st1))"
    by (rule mset_eq_length)
  then have len: "length schedule = remote_count scripts config"
    by (simp add: s lx)
  have join: "length (callbacks (run st1 schedule)) = (if list_all loaded schedule then 1 else 0)"
  proof (cases "list_all loaded schedule")
    case True
    show ?thesis
    proof (cases "schedule = []")
      case True
      with len show ?thesis by (simp add: run_Nil cb)
    next
      case False
      have "\<exists>p. callbacks (run st1 schedule) = callbacks st1 @ [p] \<and>
               length (TSProgram.files p) = length (store.files st1) + length schedule"
        using True False by (intro run_all_loaded) (simp_all add: n c len)
      moreover have "remote_count scripts config \<noteq> 0"
        using False len by (cases schedule) auto
      then have "callbacks st1 = []"
        by (simp add: cb)
      ultimately show ?thesis using True by auto
    qed
  next
    case False
    then have "length (filter loaded schedule) < length schedule"
      by (rule filter_loaded_short)
    then have few: "int (length (filter loaded schedule)) < n st1"
      by (simp add: n len)
    then have "callbacks (run st1 schedule) = callbacks st1"
      by (rule run_too_few_loads)
    moreover from few have "remote_count scripts config \<noteq> 0"
      by (simp add: n)
    ultimately show ?thesis using False by (simp add: cb)
  qed
  with r accepted show ?thesis by (simp add: onload_n onload_files)
next
  case rejected: False
  from readScripts_aborts [OF rejected] obtain st1 where
    r: "readScripts open_accepts scripts config = Thrown SyntaxError st1"
    and s: "sends_of (events st1) = []"
    and cb: "callbacks st1 = []"
    by blast
  from complete r s have "schedule = []" by simp
  with r cb rejected show ?thesis by (simp add: run_Nil onload_n onload_files)
qed

theorem join_completes_iff_all_load_witness:
  "list_all (opens (\<lambda>location. location \<noteq> ''http://''))
     (elements [\<lparr>src_attribute = Some ''a.ts'', src = ''http://h/a.ts'', innerHTML = ''''\<rparr>] None) \<and>
   mset (map fst [(\<lparr>url = ''a.ts'', onload_name = ''/a.ts''\<rparr>, Load 404 '''')]) =
     mset (sends_of (events (state_of (readScripts (\<lambda>location. location \<noteq> ''http://'')
       [\<lparr>src_attribute = Some ''a.ts'', src = ''http://h/a.ts'', innerHTML = ''''\<rparr>] None)))) \<and>
   list_all loaded [(\<lparr>url = ''a.ts'', onload_name = ''/a.ts''\<rparr>, Load 404 '''')] \<and>
   length (callbacks (run (state_of (readScripts (\<lambda>location. location \<noteq> ''http://'')
       [\<lparr>src_attribute = Some ''a.ts'', src = ''http://h/a.ts'', innerHTML = ''''\<rparr>] None))
     [(\<lparr>url = ''a.ts'', onload_name = ''/a.ts''\<rparr>, Load 404 '''')])) = 1 \<and>
   deliver initial (\<lparr>url = ''a.ts'', onload_name = ''/a.ts''\<rparr>, Load 404 '''') =
     deliver initial (\<lparr>url = ''a.ts'', onload_name = ''/a.ts''\<rparr>, Load 200 '''')"
proof -
  let ?a = "\<lambda>location. location \<noteq> ''http://''"
  let ?scripts = "[\<lparr>src_attribute = Some ''a.ts'', src = ''http://h/a.ts'', innerHTML = ''''\<rparr>]"
  let ?x = "\<lparr>url = ''a.ts'', onload_name = ''/a.ts''\<rparr>"
  let ?schedule = "[(?x, Load 404 '''')]"
  have h0: "list_all (opens ?a) (elements ?scripts None)"
    by code_simp
  have sx: "sends_of (events (state_of (readScripts ?a ?scripts None))) = [?x]"
    by code_simp
  have h: "mset (map fst ?schedule) =
      mset (sends_of (events (state_of (readScripts ?a ?scripts None))))"
    by (simp add: sx)
  have l: "list_all loaded ?schedule"
    by simp
  note t = join_completes_iff_all_load [OF h, of initial ?x 404 "''''"]
  from t l h0 have a: "length (callbacks (run (state_of (readScripts ?a ?scripts None)) ?schedule)) = 1"
    by simp
  from t have b: "deliver initial (?x, Load 404 '''') = deliver initial (?x, Load 200 '''')"
    by blast
  from h0 h l a b show ?thesis
    by blast
qed

section \<open>C7: a response that carries error\<close>

text \<open>
  Claim C7 has every response with \<open>error: true\<close> end in a report that contains the
  reason and in no injected artifact. The handler reports the reason and then goes on into
  \<open>showOutput\<close>. For the response \<open>{error: true, reason: "overloaded"}\<close> the result is
  \<open>undefined\<close>, no \<open>pre\<close> element is found, and the exception handler overwrites the
  report with the generic message. For a response that also carries \<open>success: true\<close>,
  a result with a \<open>pre\<close> element and a file, the file is injected.
\<close>

theorem server_fault_report_is_overwritten:
  "compile_onload
     \<lparr>server = ''http://h'', tsScriptType = ''text/typescript'', tsconfigType = ''text/tsconfig'',
       outputJsType = ''text/javascript'', outputOtherType = ''text/plain''\<rparr>
     (\<lambda>markup. if markup = ''<pre>ok</pre>'' then Some ''ok'' else None)
     (Some \<lparr>error = True, reason = Some ''overloaded'', success = False,
        result = None, TSOutput.files = None\<rparr>) [] =
     [SetError ''A server error occurred: <br/> overloaded'', HideSpinner,
      SetError ''A server error occurred.'', HideSpinner] \<and>
   status_after None (compile_onload
     \<lparr>server = ''http://h'', tsScriptType = ''text/typescript'', tsconfigType = ''text/tsconfig'',
       outputJsType = ''text/javascript'', outputOtherType = ''text/plain''\<rparr>
     (\<lambda>markup. if markup = ''<pre>ok</pre>'' then Some ''ok'' else None)
     (Some \<lparr>error = True, reason = Some ''overloaded'', success = False,
        result = None, TSOutput.files = None\<rparr>) []) =
     Some (SetError ''A server error occurred.'') \<and>
   compile_onload
     \<lparr>server = ''http://h'', tsScriptType = ''text/typescript'', tsconfigType = ''text/tsconfig'',
       outputJsType = ''text/javascript'', outputOtherType = ''text/plain''\<rparr>
     (\<lambda>markup. if markup = ''<pre>ok</pre>'' then Some ''ok'' else None)
     (Some \<lparr>error = True, reason = Some ''overloaded'', success = True,
        result = Some ''<pre>ok</pre>'',
        TSOutput.files = Some [\<lparr>name = ''a.js'', content = ''run()''\<rparr>]\<rparr>) [] =
     [SetError ''A server error occurred: <br/> overloaded'', HideSpinner,
      ShowDiagnostic ''ok'', HideStatus, HideSpinner,
      AppendScript ''text/javascript'' ''run()'']"
  by code_simp

section \<open>C8: diagnostics, then injection\<close>

text \<open>
  Claim C8 has the diagnostic output rendered for every parsed response. For a response
  whose result holds no \<open>pre\<close> element nothing is rendered: \<open>showOutput\<close> throws
  before it touches the document, and the generic message is reported instead of
  "Compilation failed.".
\<close>

theorem diagnostics_without_pre_counterexample:
  "compile_onload
     \<lparr>server = ''http://h'', tsScriptType = ''text/typescript'', tsconfigType = ''text/tsconfig'',
       outputJsType = ''text/javascript'', outputOtherType = ''text/plain''\<rparr>
     (\<lambda>markup. if markup = ''<pre>ok</pre>'' then Some ''ok'' else None)
     (Some \<lparr>error = False, reason = None, success = False,
        result = Some ''error TS1005'', TSOutput.files = Some []\<rparr>) [] =
     [SetError ''A server error occurred.'', HideSpinner]"
  by code_simp

text \<open>
  Claim C8, amended. For every parsed response whose result holds a \<open>pre\<close> element, the
  handler appends that element to the document (after the report of the reason, if the
  response carries \<open>error\<close>); if \<open>success\<close> is false it reports "Compilation failed."
  and stops, and nothing is injected; only if \<open>success\<close> is true does it hide the status
  and hand the files to \<open>addScript\<close>, one after the other in their order.
\<close>

theorem diagnostics_then_injection:
  assumes "querySelector_pre (to_string (result output)) = Some inner"
  shows "compile_onload this querySelector_pre (Some output) doc =
           doc @ reason_report output @ [ShowDiagnostic inner] @
           (if \<not> success output then [SetError ''Compilation failed.'', HideSpinner]
            else [HideStatus, HideSpinner] @
              (case TSOutput.files output of
                 None \<Rightarrow> [SetError ''A server error occurred.'', HideSpinner]
               | Some fs \<Rightarrow> map (addScript this) fs)) \<and>
         injected (compile_onload this querySelector_pre (Some output) doc) =
           injected doc @
           (if success output
            then case TSOutput.files output of
                   None \<Rightarrow> []
                 | Some fs \<Rightarrow>
                     map (\<lambda>f. (if lastIndexOf (name f) ''.js'' = int (length (name f)) - 3
                                then outputJsType this else outputOtherType this, content f)) fs
            else [])"
proof -
  note log = compile_onload_pre [of querySelector_pre "output" inner this doc, OF assms]
  have "injected (compile_onload this querySelector_pre (Some output) doc) =
           injected doc @
           (if success output
            then case TSOutput.files output of
                   None \<Rightarrow> []
                 | Some fs \<Rightarrow>
                     map (\<lambda>f. (if lastIndexOf (name f) ''.js'' = int (length (name f)) - 3
                                then outputJsType this else outputOtherType this, content f)) fs
            else [])"
    by (simp add: log injected_append injected_reason_report injected_addScript
        split: option.splits)
  with log show ?thesis by blast
qed

theorem diagnostics_then_injection_witness:
  "(\<lambda>markup. if markup = ''<pre>ok</pre>'' then Some ''ok'' else None)
     (to_string (result \<lparr>error = False, reason = None, success = True,
        result = Some ''<pre>ok</pre>'',
        TSOutput.files = Some [\<lparr>name = ''b.js'', content = ''b()''\<rparr>,
                               \<lparr>name = ''b.js.map'', content = ''{}''\<rparr>,
                               \<lparr>name = ''a.js'', content = ''a()''\<rparr>]\<rparr>)) = Some ''ok'' \<and>
   injected (compile_onload
     \<lparr>server = ''http://h'', tsScriptType = ''text/typescript'', tsconfigType = ''text/tsconfig'',
       outputJsType = ''text/javascript'', outputOtherType = ''text/plain''\<rparr>
     (\<lambda>markup. if markup = ''<pre>ok</pre>'' then Some ''ok'' else None)
     (Some \<lparr>error = False, reason = None, success = True,
        result = Some ''<pre>ok</pre>'',
        TSOutput.files = Some [\<lparr>name = ''b.js'', content = ''b()''\<rparr>,
                               \<lparr>name = ''b.js.map'', content = ''{}''\<rparr>,
                               \<lparr>name = ''a.js'', content = ''a()''\<rparr>]\<rparr>) []) =
     [(''text/javascript'', ''b()''), (''text/plain'', ''{}''), (''text/javascript'', ''a()'')]"
proof -
  let ?cfg = "\<lparr>server = ''http://h'', tsScriptType = ''text/typescript'', tsconfigType = ''text/tsconfig'',
       outputJsType = ''text/javascript'', outputOtherType = ''text/plain''\<rparr>"
  let ?q = "\<lambda>markup. if markup = ''<pre>ok</pre>'' then Some ''ok'' else None"
  let ?fs = "[\<lparr>name = ''b.js'', content = ''b()''\<rparr>,
                               \<lparr>name = ''b.js.map'', content = ''{}''\<rparr>,
                               \<lparr>name = ''a.js'', content = ''a()''\<rparr>]"
  let ?out = "\<lparr>error = False, reason = None, success = True,
        result = Some ''<pre>ok</pre>'', TSOutput.files = Some ?fs\<rparr>"
  have h: "?q (to_string (result ?out)) = Some ''ok''"
    by (simp add: to_string_def)
  have types: "map (\<lambda>f. (if lastIndexOf (name f) ''.js'' = int (length (name f)) - 3
                                then outputJsType ?cfg else outputOtherType ?cfg, content f)) ?fs =
      [(''text/javascript'', ''b()''), (''text/plain'', ''{}''), (''text/javascript'', ''a()'')]"
    by code_simp
  note t = diagnostics_then_injection [of ?q ?out "''ok''" ?cfg "[]", OF h]
  from t have "injected (compile_onload ?cfg ?q (Some ?out) []) =
           injected [] @
           (if success ?out
            then case TSOutput.files ?out of
                   None \<Rightarrow> []
                 | Some fs \<Rightarrow>
                     map (\<lambda>f. (if lastIndexOf (name f) ''.js'' = int (length (name f)) - 3
                                then outputJsType ?cfg else outputOtherType ?cfg, content f)) fs
            else [])"
    by blast
  then have "injected (compile_onload ?cfg ?q (Some ?out) []) =
      [(''text/javascript'', ''b()''), (''text/plain'', ''{}''), (''text/javascript'', ''a()'')]"
    using types by simp
  with h show ?thesis by blast
qed

section \<open>C9: the execution mode of an artifact\<close>

text \<open>
  Claim C9 gives an artifact the script type if and only if its name ends in \<open>.js\<close>.
  \<open>addScript\<close> compares \<open>lastIndexOf(".js")\<close> with \<open>length - 3\<close>; for a name of two
  characters both are \<open>-1\<close>, so the file named \<open>ab\<close> is injected with the script type.
\<close>

theorem two_character_name_runs_as_script:
  "injected (compile_onload
     \<lparr>server = ''http://h'', tsScriptType = ''text/typescript'', tsconfigType = ''text/tsconfig'',
       outputJsType = ''text/javascript'', outputOtherType = ''text/plain''\<rparr>
     (\<lambda>markup. if markup = ''<pre>ok</pre>'' then Some ''ok'' else None)
     (Some \<lparr>error = False, reason = None, success = True,
        result = Some ''<pre>ok</pre>'',
        TSOutput.files = Some [\<lparr>name = ''ab'', content = ''not a script''\<rparr>]\<rparr>) []) =
     [(''text/javascript'', ''not a script'')] \<and>
   lastIndexOf ''ab'' ''.js'' = - 1 \<and> int (length ''ab'') - 3 = - 1"
  by code_simp

section \<open>C10: a result without a pre element\<close>

text \<open>
  Claim C10. When the response parses and its result holds no \<open>pre\<close> element, the
  handler ends as it does for a body that does not parse: after the report of the reason,
  if the response carries \<open>error\<close>, it reports the generic message and hides the
  spinner; nothing is injected, whatever \<open>success\<close> and \<open>files\<close> are; and the
  status element shows the generic message.
\<close>

theorem missing_pre_is_a_server_error:
  assumes "querySelector_pre (to_string (result output)) = None"
  shows "compile_onload this querySelector_pre (Some output) doc =
           compile_onload this querySelector_pre None (doc @ reason_report output) \<and>
         compile_onload this querySelector_pre (Some output) doc =
           doc @ reason_report output @ [SetError ''A server error occurred.'', HideSpinner] \<and>
         injected (compile_onload this querySelector_pre (Some output) doc) = injected doc \<and>
         status_after cur (compile_onload this querySelector_pre (Some output) doc) =
           Some (SetError ''A server error occurred.'')"
proof -
  have log: "compile_onload this querySelector_pre (Some output) doc =
           doc @ reason_report output @ [SetError ''A server error occurred.'', HideSpinner]"
    using assms by (simp add: compile_onload_Some showOutput_no_pre)
  have same: "compile_onload this querySelector_pre None (doc @ reason_report output) =
      doc @ reason_report output @ [SetError ''A server error occurred.'', HideSpinner]"
    by (simp add: compile_onload_def)
  have inj: "injected (compile_onload this querySelector_pre (Some output) doc) = injected doc"
    by (simp add: log injected_append injected_reason_report)
  have st: "status_after cur (compile_onload this querySelector_pre (Some output) doc) =
           Some (SetError ''A server error occurred.'')"
    by (simp add: log status_after_append)
  from log same inj st show ?thesis by simp
qed

theorem missing_pre_is_a_server_error_witness:
  "(\<lambda>markup. if markup = ''<pre>ok</pre>'' then Some ''ok'' else None)
     (to_string (result \<lparr>error = False, reason = None, success = True,
        result = Some ''Build finished'',
        TSOutput.files = Some [\<lparr>name = ''a.js'', content = ''run()''\<rparr>]\<rparr>)) = None \<and>
   compile_onload
     \<lparr>server = ''http://h'', tsScriptType = ''text/typescript'', tsconfigType = ''text/tsconfig'',
       outputJsType = ''text/javascript'', outputOtherType = ''text/plain''\<rparr>
     (\<lambda>markup. if markup = ''<pre>ok</pre>'' then Some ''ok'' else None)
     (Some \<lparr>error = False, reason = None, success = True,
        result = Some ''Build finished'',
        TSOutput.files = Some [\<lparr>name = ''a.js'', content = ''run()''\<rparr>]\<rparr>) [] =
     [SetError ''A server error occurred.'', HideSpinner] \<and>
   injected (compile_onload
     \<lparr>server = ''http://h'', tsScriptType = ''text/typescript'', tsconfigType = ''text/tsconfig'',
       outputJsType = ''text/javascript'', outputOtherType = ''text/plain''\<rparr>
     (\<lambda>markup. if markup = ''<pre>ok</pre>'' then Some ''ok'' else None)
     (Some \<lparr>error = False, reason = None, success = True,
        result = Some ''Build finished'',
        TSOutput.files = Some [\<lparr>name = ''a.js'', content = ''run()''\<rparr>]\<rparr>) []) = []"
proof -
  let ?cfg = "\<lparr>server = ''http://h'', tsScriptType = ''text/typescript'', tsconfigType = ''text/tsconfig'',
       outputJsType = ''text/javascript'', outputOtherType = ''text/plain''\<rparr>"
  let ?q = "\<lambda>markup. if markup = ''<pre>ok</pre>'' then Some ''ok'' else None"
  let ?out = "\<lparr>error = False, reason = None, success = True,
        result = Some ''Build finished'',
        TSOutput.files = Some [\<lparr>name = ''a.js'', content = ''run()''\<rparr>]\<rparr>"
  have h: "?q (to_string (result ?out)) = None"
    by (simp add: to_string_def)
  have r: "reason_report ?out = []"
    by (simp add: reason_report_def)
  note t = missing_pre_is_a_server_error [of ?q ?out ?cfg "[]" None, OF h]
  from t have a: "compile_onload ?cfg ?q (Some ?out) [] =
      [] @ reason_report ?out @ [SetError ''A server error occurred.'', HideSpinner]"
    by blast
  from t have b: "injected (compile_onload ?cfg ?q (Some ?out) []) = injected []"
    by blast
  from a r have a': "compile_onload ?cfg ?q (Some ?out) [] =
      [SetError ''A server error occurred.'', HideSpinner]"
    by simp
  from b have b': "injected (compile_onload ?cfg ?q (Some ?out) []) = []"
    by simp
  from h a' b' show ?thesis
    by blast
qed

end
